theory Spec2Isabelle
  imports Main
begin

section \<open>Common values: panics and errors\<close>

text \<open>
  A Go run-time panic is a value of \<open>go_panic\<close>; a function that can panic returns
  \<open>go_panic + 'a\<close> with \<open>Inl\<close> for the panic. An \<open>error\<close> value returned by the
  code is a value of \<open>error\<close>.
\<close>

datatype go_panic =
    IndexOutOfRange int nat  \<comment> \<open>index, length\<close>
  | InterfaceConversion  \<comment> \<open>a failed type assertion\<close>
  | UnhandledOperationType
  | UnknownBugState

datatype error =
    ErrBugNotExist
  | ErrMultipleMatchBug
  | ErrNoMatchingOp
  | ErrMultipleMatchOp
  | ErrIdentityNotExist
  | ErrMultipleMatchIdentity
  | ErrMissingIdentityToken
  | ErrCommentNotFound
  | ErrOther string
  | Wrap error string  \<comment> \<open>\<open>errors.Wrap\<close>\<close>

text \<open>What a function that can panic or return an error does.\<close>

datatype 'a res = Panics go_panic | Fails error | Returns 'a

section \<open>The Go string functions used by the note classifier\<close>

text \<open>
  Strings are byte lists. \<open>strings.HasPrefix\<close>, \<open>strings.HasSuffix\<close>,
  \<open>strings.Index\<close>, \<open>strings.Split\<close>, \<open>strings.Replace\<close> with \<open>n = -1\<close> and
  \<open>strings.TrimSuffix\<close> of the Go standard library.
\<close>

definition HasPrefix :: "string \<Rightarrow> string \<Rightarrow> bool" where
  "HasPrefix s p = (length p \<le> length s \<and> take (length p) s = p)"

definition HasSuffix :: "string \<Rightarrow> string \<Rightarrow> bool" where
  "HasSuffix s p = (length p \<le> length s \<and> drop (length s - length p) s = p)"

text \<open>\<open>strings.Index\<close>: the first position where \<open>sep\<close> occurs, \<open>None\<close> for Go's \<open>-1\<close>.\<close>

fun Index :: "string \<Rightarrow> string \<Rightarrow> nat option" where
  "Index [] sep = (if sep = [] then Some 0 else None)"
| "Index (c # cs) sep =
     (if HasPrefix (c # cs) sep then Some 0 else map_option Suc (Index cs sep))"

definition Contains :: "string \<Rightarrow> string \<Rightarrow> bool" where
  "Contains s sub = (Index s sub \<noteq> None)"

text \<open>
  \<open>strings.Split s sep\<close> is \<open>genSplit s sep 0 (-1)\<close>: cut at every occurrence of
  \<open>sep\<close> from the left; an empty \<open>sep\<close> explodes the string into its characters.
\<close>

function Split :: "string \<Rightarrow> string \<Rightarrow> string list" where
  "Split s sep =
     (if sep = [] then map (\<lambda>c. [c]) s
      else case Index s sep of
             None \<Rightarrow> [s]
           | Some m \<Rightarrow> take m s # Split (drop (m + length sep) s) sep)"
  by pat_completeness auto
termination
proof (relation "measure (\<lambda>(s, sep). length s)")
  show "wf (measure (\<lambda>(s, sep). length s))" by simp
next
  fix s sep :: string and m :: nat
  assume "sep \<noteq> []" and "Index s sep = Some m"
  moreover have "Index t sep = Some k \<Longrightarrow> k + length sep \<le> length t" for t k
    by (induction t arbitrary: k) (auto simp: HasPrefix_def split: if_splits)
  ultimately have "m + length sep \<le> length s" and "0 < length sep"
    by simp_all
  then show "((drop (m + length sep) s, sep), (s, sep)) \<in> measure (\<lambda>(s, sep). length s)"
    by (cases sep) simp_all
qed

declare Split.simps [simp del]

text \<open>
  \<open>strings.Replace s old new (-1)\<close>: every non-overlapping occurrence of \<open>old\<close>,
  from the left, becomes \<open>new\<close>. With an empty \<open>old\<close> Go inserts \<open>new\<close> before every
  character and at the end.
\<close>

function Replace :: "string \<Rightarrow> string \<Rightarrow> string \<Rightarrow> string" where
  "Replace s old new =
     (if old = new then s
      else if old = [] then concat (map (\<lambda>c. new @ [c]) s) @ new
      else case Index s old of
             None \<Rightarrow> s
           | Some m \<Rightarrow> take m s @ new @ Replace (drop (m + length old) s) old new)"
  by pat_completeness auto
termination
proof (relation "measure (\<lambda>(s, old, new). length s)")
  show "wf (measure (\<lambda>(s, old, new). length s))" by simp
next
  fix s old new :: string and m :: nat
  assume "old \<noteq> []" and "Index s old = Some m"
  moreover have "Index t old = Some k \<Longrightarrow> k + length old \<le> length t" for t k
    by (induction t arbitrary: k) (auto simp: HasPrefix_def split: if_splits)
  ultimately have "m + length old \<le> length s" and "0 < length old"
    by simp_all
  then show "((drop (m + length old) s, old, new), (s, old, new))
             \<in> measure (\<lambda>(s, old, new). length s)"
    by (cases old) simp_all
qed

declare Replace.simps [simp del]

definition TrimSuffix :: "string \<Rightarrow> string \<Rightarrow> string" where
  "TrimSuffix s suffix =
     (if HasSuffix s suffix then take (length s - length suffix) s else s)"

section \<open>The note classifier\<close>

datatype NoteType =
    NOTE_UNKNOWN
  | NOTE_ASSIGNED
  | NOTE_UNASSIGNED
  | NOTE_CHANGED_MILESTONE
  | NOTE_REMOVED_MILESTONE
  | NOTE_CHANGED_DUEDATE
  | NOTE_REMOVED_DUEDATE
  | NOTE_LOCKED
  | NOTE_UNLOCKED
  | NOTE_MENTIONED_IN_ISSUE
  | NOTE_MENTIONED_IN_MERGE_REQUEST
  | NOTE_COMMENT
  | NOTE_CLOSED
  | NOTE_REOPENED
  | NOTE_DESCRIPTION_CHANGED
  | NOTE_TITLE_CHANGED

text \<open>A remote note (\<open>gitea.Note\<close>), with the fields the bridge reads.\<close>

record Note =
  note_ID :: int
  note_System :: bool
  note_Body :: string
  note_Author :: int
  note_CreatedAt :: int
  note_UpdatedAt :: int

text \<open>
  \<open>getNewTitle\<close>: element 1 of the split of the body at \<open>** to **\<close>; Go panics
  with an index out of range when the split has a single element.
\<close>

definition getNewTitle :: "string \<Rightarrow> go_panic + string" where
  "getNewTitle diff =
     (let parts = Split diff ''** to **'' in
      if length parts \<le> 1 then Inl (IndexOutOfRange 1 (length parts))
      else
        let newTitle = parts ! 1;
            newTitle = Replace newTitle ''{+'' '''';
            newTitle = Replace newTitle ''+}'' ''''
        in Inr (TrimSuffix newTitle ''**''))"

definition GetNoteType :: "'a Note_scheme \<Rightarrow> go_panic + (NoteType \<times> string)" where
  "GetNoteType n =
     (if \<not> note_System n then Inr (NOTE_COMMENT, note_Body n)
      else if note_Body n = ''closed'' then Inr (NOTE_CLOSED, '''')
      else if note_Body n = ''reopened'' then Inr (NOTE_REOPENED, '''')
      else if note_Body n = ''changed the description'' then Inr (NOTE_DESCRIPTION_CHANGED, '''')
      else if note_Body n = ''locked this issue'' then Inr (NOTE_LOCKED, '''')
      else if note_Body n = ''unlocked this issue'' then Inr (NOTE_UNLOCKED, '''')
      else if HasPrefix (note_Body n) ''changed title from'' then
        (case getNewTitle (note_Body n) of
           Inl p \<Rightarrow> Inl p
         | Inr t \<Rightarrow> Inr (NOTE_TITLE_CHANGED, t))
      else if HasPrefix (note_Body n) ''changed due date to'' then Inr (NOTE_CHANGED_DUEDATE, '''')
      else if note_Body n = ''removed due date'' then Inr (NOTE_REMOVED_DUEDATE, '''')
      else if HasPrefix (note_Body n) ''assigned to @'' then Inr (NOTE_ASSIGNED, '''')
      else if HasPrefix (note_Body n) ''unassigned @'' then Inr (NOTE_UNASSIGNED, '''')
      else if HasPrefix (note_Body n) ''changed milestone to %'' then Inr (NOTE_CHANGED_MILESTONE, '''')
      else if HasPrefix (note_Body n) ''removed milestone'' then Inr (NOTE_REMOVED_MILESTONE, '''')
      else if HasPrefix (note_Body n) ''mentioned in issue'' then Inr (NOTE_MENTIONED_IN_ISSUE, '''')
      else if HasPrefix (note_Body n) ''mentioned in merge request'' then
        Inr (NOTE_MENTIONED_IN_MERGE_REQUEST, '''')
      else Inr (NOTE_UNKNOWN, ''''))"

section \<open>The paginated iterators\<close>

text \<open>The remote records (\<open>gitea.Issue\<close>, \<open>gitea.LabelEvent\<close>), with the fields the bridge reads.\<close>

record Issue =
  issue_ID :: int
  issue_IID :: int
  issue_Title :: string
  issue_Description :: string
  issue_Author :: int
  issue_CreatedAt :: int
  issue_WebURL :: string

record LabelEvent =
  le_ID :: int
  le_Action :: string
  le_Label :: string
  le_User :: int
  le_CreatedAt :: int

text \<open>
  The remote side at the time of one call: what each listing request answers (an error,
  or a page and the response's \<open>TotalPages\<close>), and whether the shared context is
  cancelled (\<open>ctx.Err() != nil\<close>). A fetch that exceeds its timeout answers an error.
\<close>

record world =
  ListRepoIssues :: "string \<Rightarrow> string \<Rightarrow> int \<Rightarrow> int \<Rightarrow> error + (Issue list \<times> int)"
  ListIssueNotes :: "string \<Rightarrow> int \<Rightarrow> int \<Rightarrow> int \<Rightarrow> error + (Note list \<times> int)"
  ListIssueLabelEvents :: "string \<Rightarrow> int \<Rightarrow> int \<Rightarrow> int \<Rightarrow> error + (LabelEvent list \<times> int)"
  ctx_Err :: bool

record config =
  conf_owner :: string
  conf_project :: string
  conf_capacity :: int

text \<open>The log of remote fetches: each request with the error it answered, if any.\<close>

datatype request =
    ReqRepoIssues string string int int  \<comment> \<open>owner, project, page, page size\<close>
  | ReqIssueNotes string int int int  \<comment> \<open>project, issue, page, page size\<close>
  | ReqIssueLabelEvents string int int int

type_synonym fetch_log = "(request \<times> error option) list"

subsection \<open>\<open>issueIterator\<close>\<close>

text \<open>\<open>cache\<close> is \<open>None\<close> for Go's nil slice.\<close>

record issueIterator =
  ii_page :: int
  ii_lastPage :: bool
  ii_index :: int
  ii_cache :: "Issue list option"

definition issue_Reset :: "issueIterator \<Rightarrow> issueIterator" where
  "issue_Reset ii = ii\<lparr>ii_index := -1, ii_page := 1, ii_lastPage := False, ii_cache := None\<rparr>"

definition newIssueIterator :: issueIterator where
  "newIssueIterator =
     issue_Reset \<lparr>ii_page = 0, ii_lastPage = False, ii_index = 0, ii_cache = None\<rparr>"

definition issue_getNext ::
  "world \<Rightarrow> config \<Rightarrow> issueIterator \<Rightarrow> fetch_log
     \<Rightarrow> (bool \<times> error option) \<times> issueIterator \<times> fetch_log" where
  "issue_getNext w conf ii log =
     (if ii_lastPage ii then ((False, None), ii, log)
      else
        let req = ReqRepoIssues (conf_owner conf) (conf_project conf) (ii_page ii) (conf_capacity conf)
        in case ListRepoIssues w (conf_owner conf) (conf_project conf) (ii_page ii) (conf_capacity conf) of
             Inl err \<Rightarrow> ((False, Some err), issue_Reset ii, log @ [(req, Some err)])
           | Inr (issues, totalPages) \<Rightarrow>
               let ii = (if totalPages = ii_page ii then ii\<lparr>ii_lastPage := True\<rparr> else ii) in
               if length issues = 0 then ((False, None), ii, log @ [(req, None)])
               else ((True, None),
                     ii\<lparr>ii_cache := Some issues, ii_index := 0, ii_page := ii_page ii + 1\<rparr>,
                     log @ [(req, None)]))"

definition len_cache :: "'a list option \<Rightarrow> int" where
  "len_cache c = (case c of None \<Rightarrow> 0 | Some xs \<Rightarrow> int (length xs))"

definition issue_Next ::
  "world \<Rightarrow> config \<Rightarrow> issueIterator \<Rightarrow> fetch_log
     \<Rightarrow> (bool \<times> error option) \<times> issueIterator \<times> fetch_log" where
  "issue_Next w conf ii log =
     (if ii_cache ii = None then issue_getNext w conf ii log
      else if ii_index ii < len_cache (ii_cache ii) - 1 then
        ((True, None), ii\<lparr>ii_index := ii_index ii + 1\<rparr>, log)
      else issue_getNext w conf ii log)"

text \<open>Indexing a slice: Go panics outside \<open>0 \<le> i < len\<close>, and a nil slice has length 0.\<close>

definition slice_at :: "'a list option \<Rightarrow> int \<Rightarrow> go_panic + 'a" where
  "slice_at c i =
     (case c of
        None \<Rightarrow> Inl (IndexOutOfRange i 0)
      | Some xs \<Rightarrow>
          if 0 \<le> i \<and> i < int (length xs) then Inr (xs ! nat i)
          else Inl (IndexOutOfRange i (length xs)))"

definition issue_Value :: "issueIterator \<Rightarrow> go_panic + Issue" where
  "issue_Value ii = slice_at (ii_cache ii) (ii_index ii)"

subsection \<open>\<open>noteIterator\<close>\<close>

record noteIterator =
  ni_issue :: int
  ni_page :: int
  ni_lastPage :: bool
  ni_index :: int
  ni_cache :: "Note list option"

definition note_Reset :: "noteIterator \<Rightarrow> int \<Rightarrow> noteIterator" where
  "note_Reset ni issue =
     ni\<lparr>ni_issue := issue, ni_index := -1, ni_page := 1, ni_lastPage := False, ni_cache := None\<rparr>"

definition newNoteIterator :: noteIterator where
  "newNoteIterator =
     note_Reset \<lparr>ni_issue = 0, ni_page = 0, ni_lastPage = False, ni_index = 0, ni_cache = None\<rparr> (-1)"

definition note_getNext ::
  "world \<Rightarrow> config \<Rightarrow> noteIterator \<Rightarrow> fetch_log
     \<Rightarrow> (bool \<times> error option) \<times> noteIterator \<times> fetch_log" where
  "note_getNext w conf ni log =
     (if ni_lastPage ni then ((False, None), ni, log)
      else
        let req = ReqIssueNotes (conf_project conf) (ni_issue ni) (ni_page ni) (conf_capacity conf)
        in case ListIssueNotes w (conf_project conf) (ni_issue ni) (ni_page ni) (conf_capacity conf) of
             Inl err \<Rightarrow> ((False, Some err), note_Reset ni (-1), log @ [(req, Some err)])
           | Inr (notes, totalPages) \<Rightarrow>
               let ni = (if totalPages = ni_page ni then ni\<lparr>ni_lastPage := True\<rparr> else ni) in
               if length notes = 0 then ((False, None), ni, log @ [(req, None)])
               else ((True, None),
                     ni\<lparr>ni_cache := Some notes, ni_index := 0, ni_page := ni_page ni + 1\<rparr>,
                     log @ [(req, None)]))"

definition note_Next ::
  "world \<Rightarrow> config \<Rightarrow> noteIterator \<Rightarrow> fetch_log
     \<Rightarrow> (bool \<times> error option) \<times> noteIterator \<times> fetch_log" where
  "note_Next w conf ni log =
     (if ni_cache ni = None then note_getNext w conf ni log
      else if ni_index ni < len_cache (ni_cache ni) - 1 then
        ((True, None), ni\<lparr>ni_index := ni_index ni + 1\<rparr>, log)
      else note_getNext w conf ni log)"

definition note_Value :: "noteIterator \<Rightarrow> go_panic + Note" where
  "note_Value ni = slice_at (ni_cache ni) (ni_index ni)"

subsection \<open>\<open>labelEventIterator\<close>\<close>

text \<open>
  Modelled from the spec: the source file of \<open>labelEventIterator\<close> is missing; the
  composite iterator uses its \<open>Next\<close>, \<open>Value\<close> and \<open>Reset(issue)\<close>. The spec (4.1)
  gives the three listings one Cursor contract, scoped per issue for notes and label
  events, so it is the note iterator over the label-event listing.
\<close>

record labelEventIterator =
  li_issue :: int
  li_page :: int
  li_lastPage :: bool
  li_index :: int
  li_cache :: "LabelEvent list option"

definition labelEvent_Reset :: "labelEventIterator \<Rightarrow> int \<Rightarrow> labelEventIterator" where
  "labelEvent_Reset li issue =
     li\<lparr>li_issue := issue, li_index := -1, li_page := 1, li_lastPage := False, li_cache := None\<rparr>"

definition newLabelEventIterator :: labelEventIterator where
  "newLabelEventIterator =
     labelEvent_Reset
       \<lparr>li_issue = 0, li_page = 0, li_lastPage = False, li_index = 0, li_cache = None\<rparr> (-1)"

definition labelEvent_getNext ::
  "world \<Rightarrow> config \<Rightarrow> labelEventIterator \<Rightarrow> fetch_log
     \<Rightarrow> (bool \<times> error option) \<times> labelEventIterator \<times> fetch_log" where
  "labelEvent_getNext w conf li log =
     (if li_lastPage li then ((False, None), li, log)
      else
        let req = ReqIssueLabelEvents (conf_project conf) (li_issue li) (li_page li) (conf_capacity conf)
        in case ListIssueLabelEvents w (conf_project conf) (li_issue li) (li_page li)
                  (conf_capacity conf) of
             Inl err \<Rightarrow> ((False, Some err), labelEvent_Reset li (-1), log @ [(req, Some err)])
           | Inr (events, totalPages) \<Rightarrow>
               let li = (if totalPages = li_page li then li\<lparr>li_lastPage := True\<rparr> else li) in
               if length events = 0 then ((False, None), li, log @ [(req, None)])
               else ((True, None),
                     li\<lparr>li_cache := Some events, li_index := 0, li_page := li_page li + 1\<rparr>,
                     log @ [(req, None)]))"

definition labelEvent_Next ::
  "world \<Rightarrow> config \<Rightarrow> labelEventIterator \<Rightarrow> fetch_log
     \<Rightarrow> (bool \<times> error option) \<times> labelEventIterator \<times> fetch_log" where
  "labelEvent_Next w conf li log =
     (if li_cache li = None then labelEvent_getNext w conf li log
      else if li_index li < len_cache (li_cache li) - 1 then
        ((True, None), li\<lparr>li_index := li_index li + 1\<rparr>, log)
      else labelEvent_getNext w conf li log)"

definition labelEvent_Value :: "labelEventIterator \<Rightarrow> go_panic + LabelEvent" where
  "labelEvent_Value li = slice_at (li_cache li) (li_index li)"

subsection \<open>The composite \<open>Iterator\<close>\<close>

record Iterator =
  it_conf :: config
  it_err :: "error option"
  it_issue :: issueIterator
  it_note :: noteIterator
  it_labelEvent :: labelEventIterator

definition NewIterator :: "int \<Rightarrow> string \<Rightarrow> string \<Rightarrow> Iterator" where
  "NewIterator capacity projectOwner projectName =
     \<lparr>it_conf = \<lparr>conf_owner = projectOwner, conf_project = projectName, conf_capacity = capacity\<rparr>,
      it_err = None,
      it_issue = newIssueIterator,
      it_note = newNoteIterator,
      it_labelEvent = newLabelEventIterator\<rparr>"

definition Error :: "Iterator \<Rightarrow> error option" where
  "Error i = it_err i"

text \<open>
  The three advancing calls return the iterator and the fetch log as the call leaves
  them, with the returned boolean or the panic that ended the call.
\<close>

definition NextIssue ::
  "world \<Rightarrow> Iterator \<Rightarrow> fetch_log \<Rightarrow> (go_panic + bool) \<times> Iterator \<times> fetch_log" where
  "NextIssue w i log =
     (if it_err i \<noteq> None then (Inr False, i, log)
      else if ctx_Err w then (Inr False, i, log)
      else
        case issue_Next w (it_conf i) (it_issue i) log of
          ((hasMore, err), ii, log') \<Rightarrow>
            let i = i\<lparr>it_issue := ii\<rparr> in
            if err \<noteq> None then (Inr False, i\<lparr>it_err := err\<rparr>, log')
            else
              case issue_Value (it_issue i) of
                Inl p \<Rightarrow> (Inl p, i, log')
              | Inr v \<Rightarrow>
                  let i = i\<lparr>it_note := note_Reset (it_note i) (issue_IID v)\<rparr> in
                  case issue_Value (it_issue i) of
                    Inl p \<Rightarrow> (Inl p, i, log')
                  | Inr v' \<Rightarrow>
                      (Inr hasMore,
                       i\<lparr>it_labelEvent := labelEvent_Reset (it_labelEvent i) (issue_IID v')\<rparr>,
                       log'))"

definition IssueValue :: "Iterator \<Rightarrow> go_panic + Issue" where
  "IssueValue i = issue_Value (it_issue i)"

definition NextNote ::
  "world \<Rightarrow> Iterator \<Rightarrow> fetch_log \<Rightarrow> (go_panic + bool) \<times> Iterator \<times> fetch_log" where
  "NextNote w i log =
     (if it_err i \<noteq> None then (Inr False, i, log)
      else if ctx_Err w then (Inr False, i, log)
      else
        case note_Next w (it_conf i) (it_note i) log of
          ((hasMore, err), ni, log') \<Rightarrow>
            let i = i\<lparr>it_note := ni\<rparr> in
            if err \<noteq> None then (Inr False, i\<lparr>it_err := err\<rparr>, log')
            else (Inr hasMore, i, log'))"

definition NoteValue :: "Iterator \<Rightarrow> go_panic + Note" where
  "NoteValue i = note_Value (it_note i)"

definition NextLabelEvent ::
  "world \<Rightarrow> Iterator \<Rightarrow> fetch_log \<Rightarrow> (go_panic + bool) \<times> Iterator \<times> fetch_log" where
  "NextLabelEvent w i log =
     (if it_err i \<noteq> None then (Inr False, i, log)
      else if ctx_Err w then (Inr False, i, log)
      else
        case labelEvent_Next w (it_conf i) (it_labelEvent i) log of
          ((hasMore, err), li, log') \<Rightarrow>
            let i = i\<lparr>it_labelEvent := li\<rparr> in
            if err \<noteq> None then (Inr False, i\<lparr>it_err := err\<rparr>, log')
            else (Inr hasMore, i, log'))"

definition LabelEventValue :: "Iterator \<Rightarrow> go_panic + LabelEvent" where
  "LabelEventValue i = labelEvent_Value (it_labelEvent i)"

text \<open>A caller's sequence of advancing calls, each against the remote side of its time.\<close>

datatype call = CallNextIssue | CallNextNote | CallNextLabelEvent

fun step :: "world \<Rightarrow> call \<Rightarrow> Iterator \<times> fetch_log \<Rightarrow> (go_panic + bool) \<times> Iterator \<times> fetch_log" where
  "step w CallNextIssue (i, log) = NextIssue w i log"
| "step w CallNextNote (i, log) = NextNote w i log"
| "step w CallNextLabelEvent (i, log) = NextLabelEvent w i log"

text \<open>A panic ends the run.\<close>

fun run :: "(world \<times> call) list \<Rightarrow> Iterator \<times> fetch_log
              \<Rightarrow> (go_panic + bool) list \<times> Iterator \<times> fetch_log" where
  "run [] s = ([], s)"
| "run ((w, c) # cs) s =
     (case step w c s of
        (Inl p, s') \<Rightarrow> ([Inl p], s')
      | (Inr b, s') \<Rightarrow> (case run cs s' of (rs, s'') \<Rightarrow> (Inr b # rs, s'')))"

text \<open>
  The caller's loop over the issue iterator, \<open>for ii.Next() { ... ii.Value() ... }\<close>,
  collecting the values; \<open>None\<close> when the fuel runs out before \<open>Next\<close> returns false.
  The result is the panic of a \<open>Value\<close> call, or the values with the error of the last
  \<open>Next\<close>, the iterator and the fetch log.
\<close>

fun issue_loop ::
  "nat \<Rightarrow> world \<Rightarrow> config \<Rightarrow> issueIterator \<Rightarrow> fetch_log
     \<Rightarrow> (go_panic + (Issue list \<times> error option \<times> issueIterator \<times> fetch_log)) option" where
  "issue_loop 0 w conf ii log = None"
| "issue_loop (Suc fuel) w conf ii log =
     (case issue_Next w conf ii log of
        ((False, err), ii', log') \<Rightarrow> Some (Inr ([], err, ii', log'))
      | ((True, err), ii', log') \<Rightarrow>
          (case issue_Value ii' of
             Inl p \<Rightarrow> Some (Inl p)
           | Inr v \<Rightarrow>
               (case issue_loop fuel w conf ii' log' of
                  None \<Rightarrow> None
                | Some (Inl p) \<Rightarrow> Some (Inl p)
                | Some (Inr (vs, r)) \<Rightarrow> Some (Inr (v # vs, r)))))"

subsection \<open>A remote listing served in pages\<close>

text \<open>
  The remote side the pagination property supposes: a listing \<open>xs\<close> served in pages of
  \<open>sz\<close> items, page numbers from 1, every response reporting the total page count
  \<open>ceil (length xs / sz)\<close>.
\<close>

definition paged :: "'a list \<Rightarrow> int \<Rightarrow> int \<Rightarrow> 'a list \<times> int" where
  "paged xs page sz =
     (take (nat sz) (drop (nat ((page - 1) * sz)) xs), (int (length xs) + sz - 1) div sz)"

definition serves :: "world \<Rightarrow> config \<Rightarrow> Issue list \<Rightarrow> bool" where
  "serves w conf xs =
     (\<forall>page. ListRepoIssues w (conf_owner conf) (conf_project conf) page (conf_capacity conf)
              = Inr (paged xs page (conf_capacity conf)))"

definition total_pages :: "nat \<Rightarrow> int \<Rightarrow> nat" where
  "total_pages n sz = nat ((int n + sz - 1) div sz)"

text \<open>The log entry of the successful fetch of issue page \<open>p\<close>.\<close>

definition issue_req :: "config \<Rightarrow> nat \<Rightarrow> request \<times> error option" where
  "issue_req conf p =
     (ReqRepoIssues (conf_owner conf) (conf_project conf) (int p) (conf_capacity conf), None)"

text \<open>
  The issue iterator standing on item \<open>j\<close> (from 0) of the listing \<open>xs\<close> with page
  size \<open>P\<close>: the page of \<open>j\<close> is cached and the next page number is the one after it.
\<close>

definition at_item :: "Issue list \<Rightarrow> nat \<Rightarrow> nat \<Rightarrow> issueIterator" where
  "at_item xs P j =
     \<lparr>ii_page = int (j div P) + 2,
      ii_lastPage = (j div P + 1 = (length xs + P - 1) div P),
      ii_index = int (j mod P),
      ii_cache = Some (take P (drop (j div P * P) xs))\<rparr>"

text \<open>Example values.\<close>

definition mkIssue :: "int \<Rightarrow> Issue" where
  "mkIssue n =
     \<lparr>issue_ID = n, issue_IID = n, issue_Title = ''t'', issue_Description = ''d'',
      issue_Author = 1, issue_CreatedAt = 0, issue_WebURL = ''u''\<rparr>"

definition pagedWorld :: "Issue list \<Rightarrow> world" where
  "pagedWorld xs =
     \<lparr>ListRepoIssues = (\<lambda>ow p pg sz. Inr (paged xs pg sz)),
      ListIssueNotes = (\<lambda>p i pg sz. Inr ([], 1)),
      ListIssueLabelEvents = (\<lambda>p i pg sz. Inr ([], 1)),
      ctx_Err = False\<rparr>"

definition conf2 :: config where
  "conf2 = \<lparr>conf_owner = ''o'', conf_project = ''p'', conf_capacity = 2\<rparr>"

text \<open>
  A remote side whose note listing fails, the iterator after its first \<open>NextIssue\<close>
  there, and the outcome of the \<open>NextNote\<close> that follows.
\<close>

definition failingWorld :: world where
  "failingWorld =
     \<lparr>ListRepoIssues = (\<lambda>ow p pg sz. Inr ([mkIssue 1], 1)),
      ListIssueNotes = (\<lambda>p i pg sz. Inl (ErrOther ''timeout'')),
      ListIssueLabelEvents = (\<lambda>p i pg sz. Inr ([], 1)),
      ctx_Err = False\<rparr>"

definition afterFirstIssue :: Iterator where
  "afterFirstIssue = fst (snd (NextIssue failingWorld (NewIterator 2 ''o'' ''p'') []))"

definition afterFailedNote :: "(go_panic + bool) \<times> Iterator \<times> fetch_log" where
  "afterFailedNote = step failingWorld CallNextNote (afterFirstIssue, [])"

section \<open>The local bug store\<close>

text \<open>
  Modelled from the spec: the store (packages \<open>bug\<close>, \<open>cache\<close>, \<open>entity\<close>,
  \<open>identity\<close>) is not among the sources. The spec (3, 4.3, 4.5) gives it as an
  append-only log of operations per bug, each with an author, a time and a metadata map
  attached after creation, a snapshot derived from the log, lookups by metadata that
  fail on no match and on several matches, and identities tagged with immutable
  metadata. An entity id is unique: a bug by its number, an operation by its bug and its
  position in the log, an identity by its number.
\<close>

datatype entity_id = UnsetId | BugId nat | OpId nat nat | IdentityId nat

type_synonym metadata = "(string \<times> string) list"

text \<open>Go's \<open>m[k]\<close> on a \<open>map[string]string\<close>: the empty string for a missing key.\<close>

definition at_key :: "metadata \<Rightarrow> string \<Rightarrow> string" where
  "at_key m k = (case map_of m k of None \<Rightarrow> '''' | Some v \<Rightarrow> v)"

datatype Status = NoStatus | OpenStatus | ClosedStatus

datatype op_kind =
    CreateOperation string string  \<comment> \<open>title, message\<close>
  | SetTitleOperation string
  | AddCommentOperation string
  | SetStatusOperation Status
  | LabelChangeOperation "string list" "string list"  \<comment> \<open>added, removed\<close>
  | EditCommentOperation entity_id string  \<comment> \<open>target, message\<close>
  | NoOpOperation
  | SetMetadataOperation entity_id metadata  \<comment> \<open>target, new metadata\<close>

record operation =
  op_Id :: entity_id
  op_Author :: entity_id
  op_UnixTime :: int
  op_kind :: op_kind
  op_Metadata :: metadata

record bug =
  bug_num :: nat
  bug_ops :: "operation list"
  bug_needCommit :: bool

record identity =
  ident_num :: nat
  ident_name :: string
  ident_login :: string
  ident_Metadata :: metadata

record repo =
  repo_bugs :: "bug list"
  repo_identities :: "identity list"

text \<open>
  What the store answers beyond its data: the validation of a new operation, the outcome
  of a commit, and the identity of the local user, who authors \<open>SetMetadata\<close>.
\<close>

record store_env =
  Validate :: "op_kind \<Rightarrow> error option"
  CommitError :: "nat \<Rightarrow> error option"
  UserIdentity :: entity_id

definition GetMetadata :: "operation \<Rightarrow> string \<Rightarrow> string option" where
  "GetMetadata op key = map_of (op_Metadata op) key"

definition bug_Id :: "bug \<Rightarrow> entity_id" where
  "bug_Id b = BugId (bug_num b)"

text \<open>Appending a validated operation under the next id of the bug's log.\<close>

definition append_op ::
  "store_env \<Rightarrow> bug \<Rightarrow> entity_id \<Rightarrow> int \<Rightarrow> op_kind \<Rightarrow> metadata \<Rightarrow> error + (bug \<times> operation)" where
  "append_op st b author unixTime kind md =
     (case Validate st kind of
        Some err \<Rightarrow> Inl err
      | None \<Rightarrow>
          let op = \<lparr>op_Id = OpId (bug_num b) (length (bug_ops b)), op_Author = author,
                    op_UnixTime = unixTime, op_kind = kind, op_Metadata = md\<rparr>
          in Inr (b\<lparr>bug_ops := bug_ops b @ [op], bug_needCommit := True\<rparr>, op))"

definition CloseRaw ::
  "store_env \<Rightarrow> bug \<Rightarrow> entity_id \<Rightarrow> int \<Rightarrow> metadata \<Rightarrow> error + (bug \<times> operation)" where
  "CloseRaw st b author unixTime md = append_op st b author unixTime (SetStatusOperation ClosedStatus) md"

definition OpenRaw ::
  "store_env \<Rightarrow> bug \<Rightarrow> entity_id \<Rightarrow> int \<Rightarrow> metadata \<Rightarrow> error + (bug \<times> operation)" where
  "OpenRaw st b author unixTime md = append_op st b author unixTime (SetStatusOperation OpenStatus) md"

definition AddCommentRaw ::
  "store_env \<Rightarrow> bug \<Rightarrow> entity_id \<Rightarrow> int \<Rightarrow> string \<Rightarrow> metadata \<Rightarrow> error + (bug \<times> operation)" where
  "AddCommentRaw st b author unixTime message md =
     append_op st b author unixTime (AddCommentOperation message) md"

definition EditCommentRaw ::
  "store_env \<Rightarrow> bug \<Rightarrow> entity_id \<Rightarrow> int \<Rightarrow> entity_id \<Rightarrow> string \<Rightarrow> metadata
     \<Rightarrow> error + (bug \<times> operation)" where
  "EditCommentRaw st b author unixTime target message md =
     append_op st b author unixTime (EditCommentOperation target message) md"

definition SetTitleRaw ::
  "store_env \<Rightarrow> bug \<Rightarrow> entity_id \<Rightarrow> int \<Rightarrow> string \<Rightarrow> metadata \<Rightarrow> error + (bug \<times> operation)" where
  "SetTitleRaw st b author unixTime title md =
     append_op st b author unixTime (SetTitleOperation title) md"

definition ForceChangeLabelsRaw ::
  "store_env \<Rightarrow> bug \<Rightarrow> entity_id \<Rightarrow> int \<Rightarrow> string list \<Rightarrow> string list \<Rightarrow> metadata
     \<Rightarrow> error + (bug \<times> operation)" where
  "ForceChangeLabelsRaw st b author unixTime added removed md =
     append_op st b author unixTime (LabelChangeOperation added removed) md"

text \<open>
  \<open>SetMetadata\<close> appends a \<open>SetMetadata\<close> operation; applied to the snapshot it adds to
  the target operation the new entries whose key the target does not hold yet.
\<close>

definition add_immutable :: "metadata \<Rightarrow> metadata \<Rightarrow> metadata" where
  "add_immutable md new = md @ filter (\<lambda>(k, v). map_of md k = None) new"

definition SetMetadata ::
  "store_env \<Rightarrow> bug \<Rightarrow> entity_id \<Rightarrow> metadata \<Rightarrow> error + (bug \<times> operation)" where
  "SetMetadata st b target new =
     (case append_op st b (UserIdentity st) 0 (SetMetadataOperation target new) [] of
        Inl err \<Rightarrow> Inl err
      | Inr (b', op) \<Rightarrow>
          Inr (b'\<lparr>bug_ops :=
                   map (\<lambda>t. if op_Id t = target
                            then t\<lparr>op_Metadata := add_immutable (op_Metadata t) new\<rparr> else t)
                     (bug_ops b')\<rparr>, op))"

definition NeedCommit :: "bug \<Rightarrow> bool" where
  "NeedCommit b = bug_needCommit b"

definition Commit :: "store_env \<Rightarrow> bug \<Rightarrow> error + bug" where
  "Commit st b =
     (case CommitError st (bug_num b) of
        Some err \<Rightarrow> Inl err
      | None \<Rightarrow> Inr (b\<lparr>bug_needCommit := False\<rparr>))"

definition CommitAsNeeded :: "store_env \<Rightarrow> bug \<Rightarrow> error + bug" where
  "CommitAsNeeded st b = (if NeedCommit b then Commit st b else Inr b)"

definition ResolveOperationWithMetadata :: "bug \<Rightarrow> string \<Rightarrow> string \<Rightarrow> error + entity_id" where
  "ResolveOperationWithMetadata b key v =
     (case filter (\<lambda>op. GetMetadata op key = Some v) (bug_ops b) of
        [] \<Rightarrow> Inl ErrNoMatchingOp
      | [op] \<Rightarrow> Inr (op_Id op)
      | _ \<Rightarrow> Inl ErrMultipleMatchOp)"

text \<open>
  The snapshot's comments: the creation operation's message is the first comment, under
  the creation operation's id; an edit replaces the message of its target.
\<close>

fun apply_comment :: "(entity_id \<times> string) list \<Rightarrow> operation \<Rightarrow> (entity_id \<times> string) list" where
  "apply_comment cs op =
     (case op_kind op of
        CreateOperation title message \<Rightarrow> cs @ [(op_Id op, message)]
      | AddCommentOperation message \<Rightarrow> cs @ [(op_Id op, message)]
      | EditCommentOperation target message \<Rightarrow>
          map (\<lambda>(i, m). if i = target then (i, message) else (i, m)) cs
      | _ \<Rightarrow> cs)"

definition Comments :: "bug \<Rightarrow> (entity_id \<times> string) list" where
  "Comments b = foldl apply_comment [] (bug_ops b)"

definition SearchComment :: "bug \<Rightarrow> entity_id \<Rightarrow> error + (entity_id \<times> string)" where
  "SearchComment b i =
     (case find (\<lambda>c. fst c = i) (Comments b) of
        None \<Rightarrow> Inl ErrCommentNotFound
      | Some c \<Rightarrow> Inr c)"

text \<open>The metadata of the creation operation (\<open>CreateMetadata\<close>, \<open>GetCreateMetadata\<close>).\<close>

definition CreateMetadata :: "bug \<Rightarrow> metadata" where
  "CreateMetadata b = (case bug_ops b of [] \<Rightarrow> [] | op # _ \<Rightarrow> op_Metadata op)"

definition GetCreateMetadata :: "bug \<Rightarrow> string \<Rightarrow> string option" where
  "GetCreateMetadata b key = map_of (CreateMetadata b) key"

definition ResolveBugMatcher :: "repo \<Rightarrow> (bug \<Rightarrow> bool) \<Rightarrow> error + bug" where
  "ResolveBugMatcher r f =
     (case filter f (repo_bugs r) of
        [] \<Rightarrow> Inl ErrBugNotExist
      | [b] \<Rightarrow> Inr b
      | _ \<Rightarrow> Inl ErrMultipleMatchBug)"

text \<open>\<open>NewBugRaw\<close> creates and commits a bug whose log is its creation operation.\<close>

definition NewBugRaw ::
  "store_env \<Rightarrow> repo \<Rightarrow> entity_id \<Rightarrow> int \<Rightarrow> string \<Rightarrow> string \<Rightarrow> metadata
     \<Rightarrow> error + (repo \<times> bug \<times> operation)" where
  "NewBugRaw st r author unixTime title message md =
     (let n = length (repo_bugs r) in
      case append_op st \<lparr>bug_num = n, bug_ops = [], bug_needCommit = False\<rparr> author unixTime
             (CreateOperation title message) md of
        Inl err \<Rightarrow> Inl err
      | Inr (b, op) \<Rightarrow>
          (case Commit st b of
             Inl err \<Rightarrow> Inl err
           | Inr b' \<Rightarrow> Inr (r\<lparr>repo_bugs := repo_bugs r @ [b']\<rparr>, b', op)))"

text \<open>A bug handle is a pointer into the store: writing it back replaces the stored bug.\<close>

definition store_bug :: "repo \<Rightarrow> bug \<Rightarrow> repo" where
  "store_bug r b =
     r\<lparr>repo_bugs := map (\<lambda>x. if bug_num x = bug_num b then b else x) (repo_bugs r)\<rparr>"

definition ident_Id :: "identity \<Rightarrow> entity_id" where
  "ident_Id i = IdentityId (ident_num i)"

definition ResolveIdentityImmutableMetadata :: "repo \<Rightarrow> string \<Rightarrow> string \<Rightarrow> error + identity" where
  "ResolveIdentityImmutableMetadata r key v =
     (case filter (\<lambda>i. map_of (ident_Metadata i) key = Some v) (repo_identities r) of
        [] \<Rightarrow> Inl ErrIdentityNotExist
      | [i] \<Rightarrow> Inr i
      | _ \<Rightarrow> Inl ErrMultipleMatchIdentity)"

definition NewIdentityRaw ::
  "repo \<Rightarrow> string \<Rightarrow> string \<Rightarrow> metadata \<Rightarrow> error + (repo \<times> identity)" where
  "NewIdentityRaw r name login md =
     (let i = \<lparr>ident_num = length (repo_identities r), ident_name = name, ident_login = login,
               ident_Metadata = md\<rparr>
      in Inr (r\<lparr>repo_identities := repo_identities r @ [i]\<rparr>, i))"

section \<open>Constants of the bridge\<close>

definition target :: string where "target = ''gitea''"
definition metaKeyGiteaId :: string where "metaKeyGiteaId = ''gitea-id''"
definition metaKeyGiteaUrl :: string where "metaKeyGiteaUrl = ''gitea-url''"
definition metaKeyGiteaLogin :: string where "metaKeyGiteaLogin = ''gitea-login''"
definition metaKeyGiteaBaseUrl :: string where "metaKeyGiteaBaseUrl = ''gitea-base-url''"
definition confKeyOwner :: string where "confKeyOwner = ''owner''"
definition confKeyProject :: string where "confKeyProject = ''project''"
definition confKeyGiteaBaseUrl :: string where "confKeyGiteaBaseUrl = ''base-url''"
definition confKeyDefaultLogin :: string where "confKeyDefaultLogin = ''default-login''"

text \<open>
  Modelled from the spec: the constants \<open>metaKeyGiteaProject\<close> and \<open>confKeyProjectID\<close>
  are used by the importer and the exporter and declared in no source file, and
  \<open>core.MetaKeyOrigin\<close> and \<open>auth.MetaKeyLogin\<close> belong to packages that are not among
  the sources. The spec (6) lists the metadata keys remote-id, remote-url, remote-login,
  remote-base-url, remote-project and the origin tag, each a key of its own.
\<close>

definition metaKeyGiteaProject :: string where "metaKeyGiteaProject = ''gitea-project''"
definition confKeyProjectID :: string where "confKeyProjectID = ''project-id''"
definition MetaKeyOrigin :: string where "MetaKeyOrigin = ''origin''"
definition MetaKeyLogin :: string where "MetaKeyLogin = ''login''"

text \<open>\<open>strconv.Itoa\<close> and \<open>fmt.Sprintf("%d", id)\<close>: the decimal numeral of an integer.\<close>

function decimal :: "nat \<Rightarrow> string" where
  "decimal n =
     (if n < 10 then [''0123456789'' ! n]
      else decimal (n div 10) @ [''0123456789'' ! (n mod 10)])"
  by pat_completeness auto
termination
  by (relation "measure id") simp_all

declare decimal.simps [simp del]

definition Itoa :: "int \<Rightarrow> string" where
  "Itoa i = (if i < 0 then CHR ''-'' # decimal (nat (- i)) else decimal (nat i))"

definition parseID :: "int \<Rightarrow> string" where
  "parseID i = Itoa i"

text \<open>
  \<open>strconv.Atoi\<close>: an optional sign and decimal digits, within the range of a 64-bit
  \<open>int\<close>; anything else is an error.
\<close>

fun digit_of :: "char \<Rightarrow> string \<Rightarrow> nat option" where
  "digit_of c [] = None"
| "digit_of c (d # ds) = (if c = d then Some 0 else map_option Suc (digit_of c ds))"

fun digits_value :: "nat \<Rightarrow> string \<Rightarrow> nat option" where
  "digits_value acc [] = Some acc"
| "digits_value acc (c # cs) =
     (case digit_of c ''0123456789'' of
        None \<Rightarrow> None
      | Some d \<Rightarrow> digits_value (10 * acc + d) cs)"

definition Atoi :: "string \<Rightarrow> error + int" where
  "Atoi s =
     (let (neg, ds) = (case s of
                         c # cs \<Rightarrow> if c = CHR ''-'' then (True, cs)
                                   else if c = CHR ''+'' then (False, cs) else (False, s)
                       | [] \<Rightarrow> (False, s))
      in if ds = [] then Inl (ErrOther ''invalid syntax'')
         else case digits_value 0 ds of
                None \<Rightarrow> Inl (ErrOther ''invalid syntax'')
              | Some n \<Rightarrow>
                  let i = (if neg then - int n else int n) in
                  if - (2 ^ 63) \<le> i \<and> i < 2 ^ 63 then Inr i
                  else Inl (ErrOther ''value out of range''))"

section \<open>The importer\<close>

record User =
  user_Name :: string
  user_Username :: string

datatype ImportResult =
    ImportBug entity_id
  | ImportComment entity_id
  | ImportCommentEdition entity_id
  | ImportStatusChange entity_id
  | ImportTitleEdition entity_id
  | ImportIdentity entity_id
  | ImportNothing entity_id string
  | ImportError error string

text \<open>
  The collaborators of the importer: \<open>text.Cleanup\<close>, the remote user profiles
  (\<open>Users.GetUser\<close>) and the store.
\<close>

record import_env =
  Cleanup :: "string \<Rightarrow> error + string"
  GetUser :: "int \<Rightarrow> error + User"
  istore :: store_env

text \<open>
  \<open>giteaImporter\<close>: its configuration and its iterator. What it sends on the channel
  \<open>out\<close> is returned by each function as a list.
\<close>

record giteaImporter =
  gi_conf :: metadata
  gi_iterator :: Iterator

definition ensurePerson ::
  "import_env \<Rightarrow> repo \<Rightarrow> int \<Rightarrow> error + (repo \<times> entity_id \<times> ImportResult list)" where
  "ensurePerson env r uid =
     (case ResolveIdentityImmutableMetadata r metaKeyGiteaId (Itoa uid) of
        Inr i \<Rightarrow> Inr (r, ident_Id i, [])
      | Inl err \<Rightarrow>
          if err = ErrMultipleMatchIdentity then Inl err
          else
            case GetUser env uid of
              Inl err \<Rightarrow> Inl err
            | Inr user \<Rightarrow>
                (case NewIdentityRaw r (user_Name user) (user_Username user)
                        [(metaKeyGiteaId, Itoa uid), (metaKeyGiteaLogin, user_Username user)] of
                   Inl err \<Rightarrow> Inl err
                 | Inr (r', i) \<Rightarrow> Inr (r', ident_Id i, [ImportIdentity (ident_Id i)])))"

definition ensureIssue ::
  "import_env \<Rightarrow> giteaImporter \<Rightarrow> repo \<Rightarrow> Issue
     \<Rightarrow> error + (repo \<times> bug \<times> ImportResult list)" where
  "ensureIssue env gi r issue =
     (case ensurePerson env r (issue_Author issue) of
        Inl err \<Rightarrow> Inl err
      | Inr (r, author, out) \<Rightarrow>
          (case ResolveBugMatcher r
                  (\<lambda>excerpt.
                     at_key (CreateMetadata excerpt) MetaKeyOrigin = target \<and>
                     at_key (CreateMetadata excerpt) metaKeyGiteaId = parseID (issue_IID issue) \<and>
                     at_key (CreateMetadata excerpt) metaKeyGiteaBaseUrl
                       = at_key (gi_conf gi) confKeyProjectID \<and>
                     at_key (CreateMetadata excerpt) metaKeyGiteaProject
                       = at_key (gi_conf gi) confKeyGiteaBaseUrl) of
             Inr b \<Rightarrow> Inr (r, b, out)
           | Inl err \<Rightarrow>
               if err \<noteq> ErrBugNotExist then Inl err
               else
                 case Cleanup env (issue_Description issue) of
                   Inl err \<Rightarrow> Inl err
                 | Inr cleanText \<Rightarrow>
                     (case NewBugRaw (istore env) r author (issue_CreatedAt issue)
                             (issue_Title issue) cleanText
                             [(MetaKeyOrigin, target),
                              (metaKeyGiteaId, parseID (issue_IID issue)),
                              (metaKeyGiteaUrl, issue_WebURL issue),
                              (metaKeyGiteaProject, at_key (gi_conf gi) confKeyProjectID),
                              (metaKeyGiteaBaseUrl, at_key (gi_conf gi) confKeyGiteaBaseUrl)] of
                        Inl err \<Rightarrow> Inl err
                      | Inr (r, b, op) \<Rightarrow> Inr (r, b, out @ [ImportBug (bug_Id b)]))))"

text \<open>
  \<open>ensureNote\<close>. \<open>errResolve\<close> is \<open>None\<close> for Go's \<open>nil\<close>, and \<open>id\<close> is the unset id
  when the lookup fails. The \<open>default\<close> branch of the switch, a panic, is out of
  reach: \<open>GetNoteType\<close> returns no other note type than the ones the switch lists.
\<close>

definition ensureNote ::
  "import_env \<Rightarrow> giteaImporter \<Rightarrow> repo \<Rightarrow> bug \<Rightarrow> Note
     \<Rightarrow> (repo \<times> bug \<times> ImportResult list) res" where
  "ensureNote env gi r b note =
     (let giteaID = parseID (note_ID note);
          (id, errResolve) =
            (case ResolveOperationWithMetadata b metaKeyGiteaId giteaID of
               Inl err \<Rightarrow> (UnsetId, Some err)
             | Inr i \<Rightarrow> (i, None))
      in
      if errResolve \<noteq> None \<and> errResolve \<noteq> Some ErrNoMatchingOp then Fails (the errResolve)
      else
        case ensurePerson env r (note_Author note) of
          Inl err \<Rightarrow> Fails err
        | Inr (r, author, out) \<Rightarrow>
            (case GetNoteType note of
               Inl p \<Rightarrow> Panics p
             | Inr (noteType, body) \<Rightarrow>
                 (case noteType of
                    NOTE_CLOSED \<Rightarrow>
                      if errResolve = None then Returns (r, b, out)
                      else
                        (case CloseRaw (istore env) b author (note_CreatedAt note)
                                [(metaKeyGiteaId, giteaID)] of
                           Inl err \<Rightarrow> Fails err
                         | Inr (b, op) \<Rightarrow> Returns (r, b, out @ [ImportStatusChange (op_Id op)]))
                  | NOTE_REOPENED \<Rightarrow>
                      if errResolve = None then Returns (r, b, out)
                      else
                        (case OpenRaw (istore env) b author (note_CreatedAt note)
                                [(metaKeyGiteaId, giteaID)] of
                           Inl err \<Rightarrow> Fails err
                         | Inr (b, op) \<Rightarrow> Returns (r, b, out @ [ImportStatusChange (op_Id op)]))
                  | NOTE_DESCRIPTION_CHANGED \<Rightarrow>
                      (case IssueValue (gi_iterator gi) of
                         Inl p \<Rightarrow> Panics p
                       | Inr issue \<Rightarrow>
                           (case Comments b of
                              [] \<Rightarrow> Panics (IndexOutOfRange 0 0)
                            | firstComment # _ \<Rightarrow>
                                if errResolve = Some ErrNoMatchingOp
                                   \<and> issue_Description issue \<noteq> snd firstComment
                                then
                                  (case EditCommentRaw (istore env) b author (note_UpdatedAt note)
                                          (fst firstComment) (issue_Description issue)
                                          [(metaKeyGiteaId, giteaID)] of
                                     Inl err \<Rightarrow> Fails err
                                   | Inr (b, op) \<Rightarrow>
                                       Returns (r, b, out @ [ImportTitleEdition (op_Id op)]))
                                else Returns (r, b, out)))
                  | NOTE_COMMENT \<Rightarrow>
                      (case Cleanup env body of
                         Inl err \<Rightarrow> Fails err
                       | Inr cleanText \<Rightarrow>
                           if errResolve = Some ErrNoMatchingOp then
                             (case AddCommentRaw (istore env) b author (note_CreatedAt note)
                                     cleanText [(metaKeyGiteaId, giteaID)] of
                                Inl err \<Rightarrow> Fails err
                              | Inr (b, op) \<Rightarrow> Returns (r, b, out @ [ImportComment (op_Id op)]))
                           else
                             (case SearchComment b id of
                                Inl err \<Rightarrow> Fails err
                              | Inr comment \<Rightarrow>
                                  if snd comment \<noteq> cleanText then
                                    (case EditCommentRaw (istore env) b author
                                            (note_UpdatedAt note) (fst comment) cleanText [] of
                                       Inl err \<Rightarrow> Fails err
                                     | Inr (b, op) \<Rightarrow>
                                         Returns (r, b, out @ [ImportCommentEdition (op_Id op)]))
                                  else Returns (r, b, out)))
                  | NOTE_TITLE_CHANGED \<Rightarrow>
                      if errResolve = None then Returns (r, b, out)
                      else
                        (case SetTitleRaw (istore env) b author (note_CreatedAt note) body
                                [(metaKeyGiteaId, giteaID)] of
                           Inl err \<Rightarrow> Fails err
                         | Inr (b, op) \<Rightarrow> Returns (r, b, out @ [ImportTitleEdition (op_Id op)]))
                  | _ \<Rightarrow> Returns (r, b, out))))"

definition ensureLabelEvent ::
  "import_env \<Rightarrow> giteaImporter \<Rightarrow> repo \<Rightarrow> bug \<Rightarrow> LabelEvent
     \<Rightarrow> (repo \<times> bug \<times> ImportResult list) res" where
  "ensureLabelEvent env gi r b labelEvent =
     (case ResolveOperationWithMetadata b metaKeyGiteaId (parseID (le_ID labelEvent)) of
        Inr _ \<Rightarrow> Returns (r, b, [])
      | Inl err \<Rightarrow>
          if err \<noteq> ErrNoMatchingOp then Fails err
          else
            case ensurePerson env r (le_User labelEvent) of
              Inl err \<Rightarrow> Fails err
            | Inr (r, author, out) \<Rightarrow>
                if le_Action labelEvent = ''add'' then
                  (case ForceChangeLabelsRaw (istore env) b author (le_CreatedAt labelEvent)
                          [le_Label labelEvent] []
                          [(metaKeyGiteaId, parseID (le_ID labelEvent))] of
                     Inl err \<Rightarrow> Fails err
                   | Inr (b, op) \<Rightarrow> Returns (r, b, out))
                else if le_Action labelEvent = ''remove'' then
                  (case ForceChangeLabelsRaw (istore env) b author (le_CreatedAt labelEvent)
                          [] [le_Label labelEvent]
                          [(metaKeyGiteaId, parseID (le_ID labelEvent))] of
                     Inl err \<Rightarrow> Fails err
                   | Inr (b, op) \<Rightarrow> Returns (r, b, out))
                else Fails (ErrOther ''unexpected label event action''))"

text \<open>
  The body of the loop of \<open>ImportAll\<close> for one issue, over the notes and the label
  events the iterator delivers for it, in their order.
\<close>

fun ensureNotes ::
  "import_env \<Rightarrow> giteaImporter \<Rightarrow> repo \<Rightarrow> bug \<Rightarrow> Note list
     \<Rightarrow> (repo \<times> bug \<times> ImportResult list) res" where
  "ensureNotes env gi r b [] = Returns (r, b, [])"
| "ensureNotes env gi r b (note # notes) =
     (case ensureNote env gi r b note of
        Panics p \<Rightarrow> Panics p
      | Fails err \<Rightarrow> Fails err
      | Returns (r', b', out) \<Rightarrow>
          (case ensureNotes env gi r' b' notes of
             Panics p \<Rightarrow> Panics p
           | Fails err \<Rightarrow> Fails err
           | Returns (r'', b'', out') \<Rightarrow> Returns (r'', b'', out @ out')))"

fun ensureLabelEvents ::
  "import_env \<Rightarrow> giteaImporter \<Rightarrow> repo \<Rightarrow> bug \<Rightarrow> LabelEvent list
     \<Rightarrow> (repo \<times> bug \<times> ImportResult list) res" where
  "ensureLabelEvents env gi r b [] = Returns (r, b, [])"
| "ensureLabelEvents env gi r b (ev # evs) =
     (case ensureLabelEvent env gi r b ev of
        Panics p \<Rightarrow> Panics p
      | Fails err \<Rightarrow> Fails err
      | Returns (r', b', out) \<Rightarrow>
          (case ensureLabelEvents env gi r' b' evs of
             Panics p \<Rightarrow> Panics p
           | Fails err \<Rightarrow> Fails err
           | Returns (r'', b'', out') \<Rightarrow> Returns (r'', b'', out @ out')))"

definition importIssue ::
  "import_env \<Rightarrow> giteaImporter \<Rightarrow> repo \<Rightarrow> Issue \<Rightarrow> Note list \<Rightarrow> LabelEvent list
     \<Rightarrow> (repo \<times> bug \<times> ImportResult list) res" where
  "importIssue env gi r issue notes events =
     (case ensureIssue env gi r issue of
        Inl err \<Rightarrow> Fails err
      | Inr (r, b, out) \<Rightarrow>
          (case ensureNotes env gi r b notes of
             Panics p \<Rightarrow> Panics p
           | Fails err \<Rightarrow> Fails err
           | Returns (r, b, out1) \<Rightarrow>
               (case ensureLabelEvents env gi r b events of
                  Panics p \<Rightarrow> Panics p
                | Fails err \<Rightarrow> Fails err
                | Returns (r, b, out2) \<Rightarrow>
                    if \<not> NeedCommit b then
                      Returns (store_bug r b, b,
                               out @ out1 @ out2 @ [ImportNothing (bug_Id b) ''no imported operation''])
                    else
                      (case Commit (istore env) b of
                         Inl err \<Rightarrow> Fails err
                       | Inr b \<Rightarrow> Returns (store_bug r b, b, out @ out1 @ out2)))))"

section \<open>The exporter\<close>

text \<open>A \<open>gitea.Client\<close> is its base URL and the token it authenticates with.\<close>

record client =
  client_baseURL :: string
  client_token :: string

text \<open>A stored credential (\<open>auth.Token\<close>): its token value and its metadata.\<close>

record credential =
  cred_Value :: string
  cred_Metadata :: metadata

text \<open>
  The calls of the remote write API, each with the client that issues it and the
  repository it names; a label update carries a set of labels.
\<close>

datatype remote_write =
    CreateIssue client string string string  \<comment> \<open>repository, title, body\<close>
  | CreateIssueNote client string int string  \<comment> \<open>repository, issue, body\<close>
  | UpdateIssueNote client string int int string  \<comment> \<open>repository, issue, note, body\<close>
  | UpdateIssueState client string int string  \<comment> \<open>repository, issue, state event\<close>
  | UpdateIssueDescription client string int string
  | UpdateIssueTitle client string int string
  | UpdateIssueLabels client string int "string set"

datatype ExportResult =
    ExportBug entity_id
  | ExportComment entity_id
  | ExportCommentEdition entity_id
  | ExportStatusChange entity_id
  | ExportTitleEdition entity_id
  | ExportLabelChange entity_id
  | ExportNothing entity_id string
  | ExportError error entity_id

text \<open>
  The collaborators of the exporter: the credential store (\<open>auth.List\<close> for a base URL),
  \<open>gitea.NewClient\<close>, the remote side, which answers a write with an error or with the
  id, the number and the URL of what it wrote, and the store.
\<close>

record export_env =
  AuthList :: "string \<Rightarrow> error + credential list"
  NewClient :: "string \<Rightarrow> string \<Rightarrow> error + client"
  Remote :: "remote_write \<Rightarrow> error + (int \<times> int \<times> string)"
  estore :: store_env

text \<open>
  \<open>giteaExporter\<close>. The field \<open>repositoryID\<close> is read by \<open>exportBug\<close>; the struct of
  the source does not declare it, and nothing assigns it: \<open>Init\<close> takes its value as
  a parameter. \<open>exportBug\<close> passes it to every remote call as the repository, also to
  \<open>createGiteaIssue\<close>, whose declaration takes an owner and a name.
\<close>

record giteaExporter =
  ge_conf :: metadata
  ge_identityClient :: "(entity_id \<times> client) list"
  ge_repositoryOwner :: string
  ge_repositoryName :: string
  ge_repositoryID :: string
  ge_cachedOperationIDs :: "(entity_id \<times> string) list"

definition buildClient :: "export_env \<Rightarrow> string \<Rightarrow> credential \<Rightarrow> error + client" where
  "buildClient env baseURL token = NewClient env baseURL (cred_Value token)"

text \<open>
  The loop of \<open>cacheAllClient\<close> over the credentials; \<open>creds\<close> is the whole list, which
  the loop body indexes at 0.
\<close>

fun cacheAllClient_loop ::
  "export_env \<Rightarrow> repo \<Rightarrow> credential list \<Rightarrow> giteaExporter \<Rightarrow> credential list
     \<Rightarrow> giteaExporter res" where
  "cacheAllClient_loop env r creds ge [] = Returns ge"
| "cacheAllClient_loop env r creds ge (cred # rest) =
     (case map_of (cred_Metadata cred) MetaKeyLogin of
        None \<Rightarrow> cacheAllClient_loop env r creds ge rest
      | Some login \<Rightarrow>
          (case ResolveIdentityImmutableMetadata r metaKeyGiteaLogin login of
             Inl err \<Rightarrow>
               if err = ErrIdentityNotExist then cacheAllClient_loop env r creds ge rest
               else Returns ge
           | Inr user \<Rightarrow>
               if map_of (ge_identityClient ge) (ident_Id user) = None then
                 (case slice_at (Some creds) 0 of
                    Inl p \<Rightarrow> Panics p
                  | Inr cred0 \<Rightarrow>
                      (case buildClient env (at_key (ge_conf ge) confKeyGiteaBaseUrl) cred0 of
                         Inl err \<Rightarrow> Fails err
                       | Inr client \<Rightarrow>
                           cacheAllClient_loop env r creds
                             (ge\<lparr>ge_identityClient := (ident_Id user, client) # ge_identityClient ge\<rparr>)
                             rest))
               else cacheAllClient_loop env r creds ge rest))"

definition cacheAllClient ::
  "export_env \<Rightarrow> repo \<Rightarrow> giteaExporter \<Rightarrow> string \<Rightarrow> giteaExporter res" where
  "cacheAllClient env r ge baseURL =
     (case AuthList env baseURL of
        Inl err \<Rightarrow> Fails err
      | Inr creds \<Rightarrow> cacheAllClient_loop env r creds ge creds)"

definition Init :: "export_env \<Rightarrow> repo \<Rightarrow> metadata \<Rightarrow> string \<Rightarrow> giteaExporter res" where
  "Init env r conf repositoryID =
     cacheAllClient env r
       \<lparr>ge_conf = conf, ge_identityClient = [],
        ge_repositoryOwner = at_key conf confKeyOwner,
        ge_repositoryName = at_key conf confKeyProject,
        ge_repositoryID = repositoryID,
        ge_cachedOperationIDs = []\<rparr>
       (at_key conf confKeyGiteaBaseUrl)"

definition getIdentityClient :: "giteaExporter \<Rightarrow> entity_id \<Rightarrow> error + client" where
  "getIdentityClient ge userId =
     (case map_of (ge_identityClient ge) userId of
        Some client \<Rightarrow> Inr client
      | None \<Rightarrow> Inl ErrMissingIdentityToken)"

definition markOperationAsExported ::
  "store_env \<Rightarrow> bug \<Rightarrow> entity_id \<Rightarrow> string \<Rightarrow> string \<Rightarrow> error + bug" where
  "markOperationAsExported st b tgt giteaID giteaURL =
     (case SetMetadata st b tgt [(metaKeyGiteaId, giteaID), (metaKeyGiteaUrl, giteaURL)] of
        Inl err \<Rightarrow> Inl err
      | Inr (b', op) \<Rightarrow> Inr b')"

text \<open>The state of one \<open>exportBug\<close>: what it changes, calls and sends.\<close>

record walk =
  w_ge :: giteaExporter
  w_bug :: bug
  w_labelSet :: "string set"
  w_bugUpdated :: bool
  w_writes :: "remote_write list"
  w_out :: "ExportResult list"

definition send :: "ExportResult \<Rightarrow> walk \<Rightarrow> walk" where
  "send x s = s\<lparr>w_out := w_out s @ [x]\<rparr>"

text \<open>A remote call: the write is logged, and the remote side answers it.\<close>

definition remote_call :: "export_env \<Rightarrow> remote_write \<Rightarrow> walk \<Rightarrow> (error + (int \<times> int \<times> string)) \<times> walk" where
  "remote_call env wr s = (Remote env wr, s\<lparr>w_writes := w_writes s @ [wr]\<rparr>)"

text \<open>
  The type switch of the walk for one operation, with the client of its author. It
  returns the remote id of what it wrote, or \<open>None\<close> after it has sent an error, upon
  which \<open>exportBug\<close> returns.
\<close>

definition export_op ::
  "export_env \<Rightarrow> int \<Rightarrow> entity_id \<Rightarrow> client \<Rightarrow> operation \<Rightarrow> walk \<Rightarrow> (int option \<times> walk) res" where
  "export_op env bugGiteaID bugCreationId client op s =
     (let repositoryID = ge_repositoryID (w_ge s); b = w_bug s in
      case op_kind op of
        AddCommentOperation message \<Rightarrow>
          (case remote_call env (CreateIssueNote client repositoryID bugGiteaID message) s of
             (Inl err, s) \<Rightarrow>
               Returns (None, send (ExportError (Wrap err ''adding comment'') (bug_Id b)) s)
           | (Inr (newId, _, _), s) \<Rightarrow>
               let s = send (ExportComment (op_Id op)) s in
               Returns (Some newId,
                 s\<lparr>w_ge := (w_ge s)\<lparr>ge_cachedOperationIDs :=
                     (op_Id op, Itoa newId) # ge_cachedOperationIDs (w_ge s)\<rparr>\<rparr>))
      | EditCommentOperation tgt message \<Rightarrow>
          if tgt = bugCreationId then
            (case remote_call env (UpdateIssueDescription client repositoryID bugGiteaID message) s of
               (Inl err, s) \<Rightarrow>
                 Returns (None, send (ExportError (Wrap err ''editing issue'') (bug_Id b)) s)
             | (Inr _, s) \<Rightarrow>
                 Returns (Some bugGiteaID, send (ExportCommentEdition (op_Id op)) s))
          else
            (case map_of (ge_cachedOperationIDs (w_ge s)) tgt of
               None \<Rightarrow>
                 Returns (None,
                   send (ExportError (ErrOther ''unexpected error: comment id not found'') tgt) s)
             | Some commentID \<Rightarrow>
                 (case Atoi commentID of
                    Inl _ \<Rightarrow>
                      Returns (None,
                        send (ExportError (ErrOther ''unexpected comment id format'') tgt) s)
                  | Inr commentIDint \<Rightarrow>
                      (case remote_call env
                              (UpdateIssueNote client repositoryID bugGiteaID commentIDint message) s of
                         (Inl err, s) \<Rightarrow>
                           Returns (None,
                             send (ExportError (Wrap err ''editing comment'') (bug_Id b)) s)
                       | (Inr _, s) \<Rightarrow>
                           Returns (Some commentIDint,
                             send (ExportCommentEdition (op_Id op)) s))))
      | SetStatusOperation status \<Rightarrow>
          (case status of
             NoStatus \<Rightarrow> Panics UnknownBugState
           | _ \<Rightarrow>
               let state = (if status = OpenStatus then ''reopen'' else ''close'') in
               (case remote_call env (UpdateIssueState client repositoryID bugGiteaID state) s of
                  (Inl err, s) \<Rightarrow>
                    Returns (None, send (ExportError (Wrap err ''editing status'') (bug_Id b)) s)
                | (Inr _, s) \<Rightarrow>
                    Returns (Some bugGiteaID, send (ExportStatusChange (op_Id op)) s)))
      | SetTitleOperation title \<Rightarrow>
          (case remote_call env (UpdateIssueTitle client repositoryID bugGiteaID title) s of
             (Inl err, s) \<Rightarrow>
               Returns (None, send (ExportError (Wrap err ''editing title'') (bug_Id b)) s)
           | (Inr _, s) \<Rightarrow>
               Returns (Some bugGiteaID, send (ExportTitleEdition (op_Id op)) s))
      | LabelChangeOperation added removed \<Rightarrow>
          let labelSet = (w_labelSet s \<union> set added) - set removed;
              s = s\<lparr>w_labelSet := labelSet\<rparr>
          in
          (case remote_call env (UpdateIssueLabels client repositoryID bugGiteaID labelSet) s of
             (Inl err, s) \<Rightarrow>
               Returns (None, send (ExportError (Wrap err ''updating labels'') (bug_Id b)) s)
           | (Inr _, s) \<Rightarrow>
               Returns (Some bugGiteaID, send (ExportLabelChange (op_Id op)) s))
      | _ \<Rightarrow> Panics UnhandledOperationType)"

text \<open>
  The loop of \<open>exportBug\<close> over \<open>snapshot.Operations[1:]\<close>. The boolean tells whether the
  loop ran to its end (\<open>True\<close>) or \<open>exportBug\<close> returned from inside it.
\<close>

fun export_ops ::
  "export_env \<Rightarrow> int \<Rightarrow> entity_id \<Rightarrow> operation list \<Rightarrow> walk \<Rightarrow> (bool \<times> walk) res" where
  "export_ops env bugGiteaID bugCreationId [] s = Returns (True, s)"
| "export_ops env bugGiteaID bugCreationId (op # ops) s =
     (case op_kind op of
        SetMetadataOperation _ _ \<Rightarrow> export_ops env bugGiteaID bugCreationId ops s
      | _ \<Rightarrow>
          (case GetMetadata op metaKeyGiteaId of
             Some giteaId \<Rightarrow>
               export_ops env bugGiteaID bugCreationId ops
                 (s\<lparr>w_ge := (w_ge s)\<lparr>ge_cachedOperationIDs :=
                      (op_Id op, giteaId) # ge_cachedOperationIDs (w_ge s)\<rparr>\<rparr>)
           | None \<Rightarrow>
               (case getIdentityClient (w_ge s) (op_Author op) of
                  Inl err \<Rightarrow> export_ops env bugGiteaID bugCreationId ops s
                | Inr client \<Rightarrow>
                    (case export_op env bugGiteaID bugCreationId client op s of
                       Panics p \<Rightarrow> Panics p
                     | Fails err \<Rightarrow> Fails err
                     | Returns (None, s) \<Rightarrow> Returns (False, s)
                     | Returns (Some newId, s) \<Rightarrow>
                         (case markOperationAsExported (estore env) (w_bug s) (op_Id op)
                                 (Itoa newId) '''' of
                            Inl err \<Rightarrow>
                              Returns (False,
                                send (ExportError (Wrap err ''marking operation as exported'')
                                        (bug_Id (w_bug s))) s)
                          | Inr b \<Rightarrow>
                              (case CommitAsNeeded (estore env) b of
                                 Inl err \<Rightarrow>
                                   Returns (False,
                                     send (ExportError (Wrap err ''bug commit'') (bug_Id b))
                                       (s\<lparr>w_bug := b\<rparr>))
                               | Inr b \<Rightarrow>
                                   export_ops env bugGiteaID bugCreationId ops
                                     (s\<lparr>w_bug := b, w_bugUpdated := True\<rparr>)))))))"

text \<open>
  \<open>exportBug\<close> from the walk on: the remote id of the bug is cached under the creation
  operation, the operations after it are walked, and a walk that exported nothing says so.
\<close>

definition exportBug_walk ::
  "export_env \<Rightarrow> operation \<Rightarrow> int \<Rightarrow> string \<Rightarrow> walk \<Rightarrow> walk res" where
  "exportBug_walk env createOp bugGiteaID bugGiteaIDString s =
     (let bugCreationId = op_Id createOp;
          s = s\<lparr>w_ge := (w_ge s)\<lparr>ge_cachedOperationIDs :=
                  (bugCreationId, bugGiteaIDString) # ge_cachedOperationIDs (w_ge s)\<rparr>,
                w_labelSet := {}\<rparr>
      in case export_ops env bugGiteaID bugCreationId (tl (bug_ops (w_bug s))) s of
           Panics p \<Rightarrow> Panics p
         | Fails err \<Rightarrow> Fails err
         | Returns (False, s) \<Rightarrow> Returns s
         | Returns (True, s) \<Rightarrow>
             if \<not> w_bugUpdated s then
               Returns (send (ExportNothing (bug_Id (w_bug s)) ''nothing has been exported'') s)
             else Returns s)"

definition exportBug :: "export_env \<Rightarrow> giteaExporter \<Rightarrow> bug \<Rightarrow> walk res" where
  "exportBug env ge b =
     (let s = \<lparr>w_ge = ge, w_bug = b, w_labelSet = {}, w_bugUpdated = False,
               w_writes = [], w_out = []\<rparr>;
          GiteaBaseUrl = '''';
          origin = GetCreateMetadata b MetaKeyOrigin
      in
      if origin \<noteq> None \<and> the origin \<noteq> target then
        Returns (send (ExportNothing (bug_Id b) (''issue tagged with origin: '' @ the origin)) s)
      else
        case bug_ops b of
          [] \<Rightarrow> Panics (IndexOutOfRange 0 0)
        | createOp # _ \<Rightarrow>
            (case op_kind createOp of
               CreateOperation title message \<Rightarrow>
                 let author = op_Author createOp in
                 (case GetCreateMetadata b metaKeyGiteaId of
                    Some giteaID \<Rightarrow>
                      let giteaBaseUrl = GetCreateMetadata b metaKeyGiteaBaseUrl in
                      if giteaBaseUrl \<noteq> None
                         \<and> the giteaBaseUrl \<noteq> at_key (ge_conf ge) confKeyGiteaBaseUrl
                      then
                        Returns (send (ExportNothing (bug_Id b)
                                   ''skipping issue imported from another Gitea instance'') s)
                      else
                        (case GetCreateMetadata b metaKeyGiteaProject of
                           None \<Rightarrow>
                             Returns (send (ExportError
                                        (ErrOther ''expected to find gitea project id'') (bug_Id b)) s)
                         | Some projectID \<Rightarrow>
                             if projectID \<noteq> at_key (ge_conf ge) confKeyProjectID then
                               Returns (send (ExportNothing (bug_Id b)
                                          ''skipping issue imported from another repository'') s)
                             else
                               (case Atoi giteaID of
                                  Inl _ \<Rightarrow>
                                    Returns (send (ExportError
                                               (ErrOther (''unexpected gitea id format: '' @ giteaID))
                                               (bug_Id b)) s)
                                | Inr bugGiteaID \<Rightarrow>
                                    exportBug_walk env createOp bugGiteaID giteaID s))
                  | None \<Rightarrow>
                      (case getIdentityClient ge author of
                         Inl _ \<Rightarrow>
                           Returns (send (ExportNothing (bug_Id b) ''missing author token'') s)
                       | Inr client \<Rightarrow>
                           (case remote_call env
                                   (CreateIssue client (ge_repositoryID ge) title message) s of
                              (Inl err, s) \<Rightarrow>
                                Returns (send (ExportError (Wrap err ''exporting gitea issue'')
                                                 (bug_Id b)) s)
                            | (Inr (_, newId, url), s) \<Rightarrow>
                                let idString = Itoa newId;
                                    s = send (ExportBug (bug_Id b)) s
                                in
                                (case SetMetadata (estore env) b (op_Id createOp)
                                        [(metaKeyGiteaId, idString),
                                         (metaKeyGiteaUrl, url),
                                         (metaKeyGiteaBaseUrl, GiteaBaseUrl)] of
                                   Inl err \<Rightarrow>
                                     Returns (send (ExportError
                                                (Wrap err ''marking operation as exported'')
                                                (bug_Id b)) s)
                                 | Inr (b, _) \<Rightarrow>
                                     (case CommitAsNeeded (estore env) b of
                                        Inl err \<Rightarrow>
                                          Returns (send (ExportError (Wrap err ''bug commit'')
                                                           (bug_Id b)) (s\<lparr>w_bug := b\<rparr>))
                                      | Inr b \<Rightarrow>
                                          exportBug_walk env createOp newId idString
                                            (s\<lparr>w_bug := b\<rparr>))))))
             | _ \<Rightarrow> Panics InterfaceConversion))"

section \<open>Example values\<close>

text \<open>
  A store that accepts every operation and commit, an importer configured for the
  project \<open>42\<close> of \<open>https://gitea.com/\<close>, and an exporter with the same configuration
  whose credential store holds a token for each of the logins \<open>alice\<close> and \<open>bob\<close>.
\<close>

definition okStore :: store_env where
  "okStore = \<lparr>Validate = (\<lambda>k. None), CommitError = (\<lambda>n. None), UserIdentity = IdentityId 0\<rparr>"

definition exConf :: metadata where
  "exConf =
     [(confKeyGiteaBaseUrl, ''https://gitea.com/''), (confKeyProjectID, ''42''),
      (confKeyOwner, ''o''), (confKeyProject, ''p'')]"

definition remoteUser :: "int \<Rightarrow> User" where
  "remoteUser i =
     (if i = 1 then \<lparr>user_Name = ''Alice'', user_Username = ''alice''\<rparr>
      else \<lparr>user_Name = ''Bob'', user_Username = ''bob''\<rparr>)"

definition exImportEnv :: import_env where
  "exImportEnv =
     \<lparr>Cleanup = (\<lambda>s. Inr s), GetUser = (\<lambda>i. Inr (remoteUser i)), istore = okStore\<rparr>"

definition exImporter :: giteaImporter where
  "exImporter = \<lparr>gi_conf = exConf, gi_iterator = afterFirstIssue\<rparr>"

definition emptyRepo :: repo where
  "emptyRepo = \<lparr>repo_bugs = [], repo_identities = []\<rparr>"

definition comment :: "int \<Rightarrow> int \<Rightarrow> string \<Rightarrow> Note" where
  "comment n author body =
     \<lparr>note_ID = n, note_System = False, note_Body = body, note_Author = author,
      note_CreatedAt = 0, note_UpdatedAt = 0\<rparr>"

definition exExportEnv :: export_env where
  "exExportEnv =
     \<lparr>AuthList = (\<lambda>u. Inr [\<lparr>cred_Value = ''token-of-alice'',
                              cred_Metadata = [(MetaKeyLogin, ''alice'')]\<rparr>,
                            \<lparr>cred_Value = ''token-of-bob'',
                              cred_Metadata = [(MetaKeyLogin, ''bob'')]\<rparr>]),
      NewClient = (\<lambda>u t. Inr \<lparr>client_baseURL = u, client_token = t\<rparr>),
      Remote = (\<lambda>w. Inr (100, 7, ''url'')),
      estore = okStore\<rparr>"

text \<open>The identities of Alice (remote user 1) and Bob (remote user 2), as imported.\<close>

definition repoAliceBob :: repo where
  "repoAliceBob =
     \<lparr>repo_bugs = [],
      repo_identities =
        [\<lparr>ident_num = 0, ident_name = ''Alice'', ident_login = ''alice'',
          ident_Metadata = [(metaKeyGiteaId, ''1''), (metaKeyGiteaLogin, ''alice'')]\<rparr>,
         \<lparr>ident_num = 1, ident_name = ''Bob'', ident_login = ''bob'',
          ident_Metadata = [(metaKeyGiteaId, ''2''), (metaKeyGiteaLogin, ''bob'')]\<rparr>]\<rparr>"

definition aliceClient :: client where
  "aliceClient = \<lparr>client_baseURL = ''https://gitea.com/'', client_token = ''token-of-alice''\<rparr>"

text \<open>The exporter after \<open>Init\<close>, as \<open>cacheAllClient\<close> leaves it.\<close>

definition exExporter :: giteaExporter where
  "exExporter =
     \<lparr>ge_conf = exConf,
      ge_identityClient = [(IdentityId 1, aliceClient), (IdentityId 0, aliceClient)],
      ge_repositoryOwner = ''o'', ge_repositoryName = ''p'', ge_repositoryID = ''42'',
      ge_cachedOperationIDs = []\<rparr>"

text \<open>A bug written locally by Alice, not exported yet.\<close>

definition localBug :: bug where
  "localBug =
     \<lparr>bug_num = 0,
      bug_ops = [\<lparr>op_Id = OpId 0 0, op_Author = IdentityId 0, op_UnixTime = 0,
                  op_kind = CreateOperation ''title'' ''body'', op_Metadata = []\<rparr>],
      bug_needCommit = False\<rparr>"

text \<open>
  A bug imported from issue 1 of the configured project, on which Alice then added the
  labels \<open>A\<close> and \<open>B\<close> locally.
\<close>

definition labelBug :: bug where
  "labelBug =
     \<lparr>bug_num = 0,
      bug_ops =
        [\<lparr>op_Id = OpId 0 0, op_Author = IdentityId 0, op_UnixTime = 0,
          op_kind = CreateOperation ''t'' ''d'',
          op_Metadata = [(MetaKeyOrigin, target), (metaKeyGiteaId, ''1''), (metaKeyGiteaUrl, ''u''),
                         (metaKeyGiteaProject, ''42''),
                         (metaKeyGiteaBaseUrl, ''https://gitea.com/'')]\<rparr>,
         \<lparr>op_Id = OpId 0 1, op_Author = IdentityId 0, op_UnixTime = 0,
          op_kind = LabelChangeOperation [''A'', ''B''] [], op_Metadata = []\<rparr>],
      bug_needCommit = False\<rparr>"

definition closedNote :: "int \<Rightarrow> int \<Rightarrow> Note" where
  "closedNote n author =
     \<lparr>note_ID = n, note_System = True, note_Body = ''closed'', note_Author = author,
      note_CreatedAt = 0, note_UpdatedAt = 0\<rparr>"

definition addLabel :: "int \<Rightarrow> string \<Rightarrow> LabelEvent" where
  "addLabel n l = \<lparr>le_ID = n, le_Action = ''add'', le_Label = l, le_User = 1, le_CreatedAt = 0\<rparr>"

text \<open>
  The import of issue 1 with a comment of Alice, its closing by Bob and the label \<open>A\<close>
  into an empty store.
\<close>

definition importedBug :: "(repo \<times> bug \<times> ImportResult list) res" where
  "importedBug =
     importIssue exImportEnv exImporter emptyRepo (mkIssue 1)
       [comment 5 1 ''hello'', closedNote 6 2] [addLabel 7 ''A'']"

section \<open>Operations that carry the remote id\<close>

definition tagged :: "operation \<Rightarrow> bool" where
  "tagged op = (GetMetadata op metaKeyGiteaId \<noteq> None)"

text \<open>
  A bug whose log starts with a creation operation and whose operations all carry the
  remote id.
\<close>

definition all_tagged :: "bug \<Rightarrow> bool" where
  "all_tagged b =
     (case bug_ops b of
        [] \<Rightarrow> False
      | c # rest \<Rightarrow>
          (case op_kind c of CreateOperation _ _ \<Rightarrow> True | _ \<Rightarrow> False)
          \<and> list_all tagged (c # rest))"

definition is_comment_edition :: "ImportResult \<Rightarrow> bool" where
  "is_comment_edition x = (case x of ImportCommentEdition _ \<Rightarrow> True | _ \<Rightarrow> False)"

definition is_bug_creation :: "ImportResult \<Rightarrow> bool" where
  "is_bug_creation x = (case x of ImportBug _ \<Rightarrow> True | _ \<Rightarrow> False)"

section \<open>Properties of the note classifier\<close>

lemma Index_bound: "Index s sep = Some m \<Longrightarrow> m + length sep \<le> length s"
  by (induction s arbitrary: m) (auto simp: HasPrefix_def split: if_splits)

lemma Index_None_Split: "sep \<noteq> [] \<Longrightarrow> Index s sep = None \<Longrightarrow> Split s sep = [s]"
  by (simp add: Split.simps)

lemma Split_nonempty: "sep \<noteq> [] \<Longrightarrow> Split s sep \<noteq> []"
  by (subst Split.simps) (simp split: option.splits)

lemma Split_length_one:
  "sep \<noteq> [] \<Longrightarrow> (length (Split s sep) \<le> 1) = (Index s sep = None)"
  by (subst Split.simps) (auto simp: Split_nonempty split: option.splits)

lemma Index_Some_Split:
  "sep \<noteq> [] \<Longrightarrow> Index s sep = Some m \<Longrightarrow>
     Split s sep = take m s # Split (drop (m + length sep) s) sep"
  by (subst Split.simps) simp

lemma HasPrefix_append: "length p \<le> length s \<Longrightarrow> HasPrefix (s @ t) p = HasPrefix s p"
  by (simp add: HasPrefix_def)

text \<open>An occurrence inside \<open>s\<close> stays the first one when text is appended.\<close>

lemma Index_append_Some: "Index s old = Some m \<Longrightarrow> Index (s @ t) old = Some m"
proof (induction s arbitrary: m)
  case Nil
  then show ?case by (cases t) (auto simp: HasPrefix_def split: if_splits)
next
  case (Cons c cs)
  show ?case
  proof (cases "HasPrefix (c # cs) old")
    case True
    then have "HasPrefix ((c # cs) @ t) old"
      using HasPrefix_append [of old "c # cs" t] by (simp add: HasPrefix_def)
    with True Cons.prems show ?thesis by simp
  next
    case False
    with Cons.prems obtain m' where m': "Index cs old = Some m'" "m = Suc m'" by auto
    from Index_bound [OF m'(1)] have "length old \<le> length (c # cs)" by simp
    with False have "\<not> HasPrefix ((c # cs) @ t) old"
      using HasPrefix_append [of old "c # cs" t] by simp
    with False m' Cons.IH [OF m'(1)] show ?thesis by simp
  qed
qed

text \<open>
  A two-character marker that does not occur in \<open>s\<close> does not occur in \<open>s @ t\<close>
  either, when \<open>t\<close> holds neither the marker's first character nor, at its head, the
  second one.
\<close>

lemma Index_append_None:
  assumes "Index s [a, b] = None" and "t \<noteq> []" and "a \<notin> set t" and "b \<noteq> hd t"
  shows "Index (s @ t) [a, b] = None"
  using assms(1)
proof (induction s)
  case Nil
  have "Index u [a, b] = None" if "a \<notin> set u" for u
    using that by (induction u) (auto simp: HasPrefix_def)
  with assms(3) show ?case by simp
next
  case (Cons c cs)
  from Cons.prems have np: "\<not> HasPrefix (c # cs) [a, b]" and n: "Index cs [a, b] = None"
    by (auto split: if_splits)
  have "\<not> HasPrefix ((c # cs) @ t) [a, b]"
  proof (cases cs)
    case Nil
    with assms(2,4) show ?thesis by (cases t) (auto simp: HasPrefix_def)
  next
    case (Cons d ds)
    with np show ?thesis by (auto simp: HasPrefix_def)
  qed
  with Cons.IH [OF n] show ?case by simp
qed

lemma Replace_append:
  assumes "t \<noteq> []" and "a \<notin> set t" and "b \<noteq> hd t"
  shows "Replace (s @ t) [a, b] [] = Replace s [a, b] [] @ t"
proof (induction s "[a, b]" "[] :: string" rule: Replace.induct)
  case (1 s)
  show ?case
  proof (cases "Index s [a, b]")
    case None
    with Index_append_None [OF None assms] show ?thesis
      by (simp add: Replace.simps)
  next
    case (Some m)
    from Index_bound [OF Some] have le: "m + 2 \<le> length s" by simp
    have "Replace (s @ t) [a, b] [] = take m (s @ t) @ Replace (drop (m + 2) (s @ t)) [a, b] []"
      using Index_append_Some [OF Some, of t] by (subst Replace.simps) simp
    also have "\<dots> = take m s @ Replace (drop (m + 2) s @ t) [a, b] []"
      using le by simp
    also have "\<dots> = take m s @ Replace (drop (m + 2) s) [a, b] [] @ t"
      using "1" [OF _ _ Some] by simp
    also have "\<dots> = Replace s [a, b] [] @ t"
      using Some by (subst (2) Replace.simps) simp
    finally show ?thesis .
  qed
qed

lemma TrimSuffix_append: "TrimSuffix (s @ t) t = s"
  by (simp add: TrimSuffix_def HasSuffix_def)

lemma getNewTitle_shape:
  assumes "Index (pre @ ''** to **'' @ new @ ''**'') ''** to **'' = Some (length pre)"
    and "Index (new @ ''**'') ''** to **'' = None"
  shows "getNewTitle (pre @ ''** to **'' @ new @ ''**'')
         = Inr (Replace (Replace new ''{+'' '''') ''+}'' '''')"
proof -
  have sp: "Split (pre @ ''** to **'' @ new @ ''**'') ''** to **'' = [pre, new @ ''**'']"
    using Index_Some_Split [OF _ assms(1)] Index_None_Split [OF _ assms(2)] by simp
  have r1: "Replace (new @ ''**'') ''{+'' '''' = Replace new ''{+'' '''' @ ''**''"
    by (rule Replace_append) simp_all
  have r2: "Replace (Replace new ''{+'' '''' @ ''**'') ''+}'' ''''
            = Replace (Replace new ''{+'' '''') ''+}'' '''' @ ''**''"
    by (rule Replace_append) simp_all
  show ?thesis
    unfolding getNewTitle_def sp by (simp add: r1 r2 TrimSuffix_append)
qed

lemma GetNoteType_title:
  assumes "note_System n" and "HasPrefix (note_Body n) ''changed title from''"
  shows "GetNoteType n =
     (case getNewTitle (note_Body n) of Inl p \<Rightarrow> Inl p | Inr t \<Rightarrow> Inr (NOTE_TITLE_CHANGED, t))"
proof -
  have "note_Body n \<noteq> ''closed''" "note_Body n \<noteq> ''reopened''"
    "note_Body n \<noteq> ''changed the description''" "note_Body n \<noteq> ''locked this issue''"
    "note_Body n \<noteq> ''unlocked this issue''"
    using assms(2) by (auto simp: HasPrefix_def)
  with assms show ?thesis by (simp add: GetNoteType_def)
qed

lemma getNewTitle_total_iff:
  "(\<exists>t. getNewTitle d = Inr t) = Contains d ''** to **''"
  using Split_length_one [of "''** to **''" d]
  by (auto simp: getNewTitle_def Contains_def Let_def)

lemma getNewTitle_panic:
  "\<not> Contains d ''** to **'' \<Longrightarrow> getNewTitle d = Inl (IndexOutOfRange 1 1)"
  by (simp add: getNewTitle_def Contains_def Index_None_Split)

text \<open>
  C5, as stated, fails: \<open>getNewTitle\<close> removes the insertion markers \<open>{+\<close> and \<open>+}\<close>
  only. A deletion marker in the new title stays in the result: for the body
  \<open>changed title from **a** to **b{-c-}**\<close> the claim gives \<open>bc\<close>, the code
  \<open>b{-c-}\<close>. And the code returns element 1 of the split, which is everything after
  \<open>** to **\<close> only when the body holds one separator: for
  \<open>changed title from **a** to **b** to **c**\<close> it returns \<open>b\<close>.
\<close>

theorem getNewTitle_deletion_markers_counterexample:
  "getNewTitle ''changed title from **a** to **b{-c-}**'' = Inr ''b{-c-}''
   \<and> getNewTitle ''changed title from **a** to **b{-c-}**'' \<noteq> Inr ''bc''
   \<and> getNewTitle ''changed title from **a** to **b** to **c**'' = Inr ''b''"
  by (simp add: getNewTitle_def Split.simps Replace.simps HasPrefix_def TrimSuffix_def
      HasSuffix_def Let_def)

text \<open>
  C5, amended: for a body \<open>changed title from **<old>** to **<new>**\<close> whose first
  \<open>** to **\<close> is the one after \<open><old>\<close> and whose rest holds no other one,
  \<open>getNewTitle\<close> returns \<open><new>\<close> with every insertion marker \<open>{+\<close> and \<open>+}\<close>
  removed (the enclosed text kept, deletion markers left as they are) and the closing
  \<open>**\<close> trimmed. The two bodies of the specification yield \<open>fourth issue changed\<close> and
  \<open>fourth issue\<close>.
\<close>

theorem getNewTitle_insertion_markers:
  assumes "Index (''changed title from **'' @ old @ ''** to **'' @ new @ ''**'') ''** to **''
           = Some (length (''changed title from **'' @ old))"
    and "\<not> Contains (new @ ''**'') ''** to **''"
  shows "getNewTitle (''changed title from **'' @ old @ ''** to **'' @ new @ ''**'')
           = Inr (Replace (Replace new ''{+'' '''') ''+}'' '''')
         \<and> getNewTitle ''changed title from **fourth issue** to **fourth issue{+ changed+}**''
           = Inr ''fourth issue changed''
         \<and> getNewTitle ''changed title from **fourth issue{- changed-}** to **fourth issue**''
           = Inr ''fourth issue''"
proof -
  have g: "getNewTitle (''changed title from **'' @ old @ ''** to **'' @ new @ ''**'')
           = Inr (Replace (Replace new ''{+'' '''') ''+}'' '''')"
    using getNewTitle_shape [of "''changed title from **'' @ old" new] assms
    by (simp add: Contains_def)
  have e1: "getNewTitle ''changed title from **fourth issue** to **fourth issue{+ changed+}**''
           = Inr ''fourth issue changed''"
    by code_simp
  have e2: "getNewTitle ''changed title from **fourth issue{- changed-}** to **fourth issue**''
           = Inr ''fourth issue''"
    by code_simp
  from g e1 e2 show ?thesis by simp
qed

theorem getNewTitle_insertion_markers_witness:
  "Index (''changed title from **'' @ ''t'' @ ''** to **'' @ ''t{+x+}{-y-}'' @ ''**'') ''** to **''
     = Some (length (''changed title from **'' @ ''t''))
   \<and> \<not> Contains (''t{+x+}{-y-}'' @ ''**'') ''** to **''
   \<and> getNewTitle (''changed title from **'' @ ''t'' @ ''** to **'' @ ''t{+x+}{-y-}'' @ ''**'')
     = Inr ''tx{-y-}''"
proof -
  have h1: "Index (''changed title from **'' @ ''t'' @ ''** to **'' @ ''t{+x+}{-y-}'' @ ''**'')
              ''** to **'' = Some (length (''changed title from **'' @ ''t''))"
    by (simp add: HasPrefix_def)
  have h2: "\<not> Contains (''t{+x+}{-y-}'' @ ''**'') ''** to **''"
    by (simp add: Contains_def HasPrefix_def)
  have r: "Replace (Replace ''t{+x+}{-y-}'' ''{+'' '''') ''+}'' '''' = ''tx{-y-}''"
    by (simp add: Replace.simps HasPrefix_def)
  from getNewTitle_insertion_markers [OF h1 h2] h1 h2 r show ?thesis by simp
qed

text \<open>
  C10: a system note whose body starts with \<open>changed title from\<close> is classified with a
  value exactly when the body contains \<open>** to **\<close>; without the separator the split has
  one element, and reading element 1 is an index out of range (index 1, length 1).
\<close>

theorem GetNoteType_title_partial:
  assumes "note_System n" and "HasPrefix (note_Body n) ''changed title from''"
  shows "((\<exists>v. GetNoteType n = Inr v) \<longleftrightarrow> Contains (note_Body n) ''** to **'')
         \<and> (\<not> Contains (note_Body n) ''** to **''
              \<longrightarrow> GetNoteType n = Inl (IndexOutOfRange 1 1))"
proof -
  note g = GetNoteType_title [OF assms]
  have "(\<exists>v. GetNoteType n = Inr v) = (\<exists>t. getNewTitle (note_Body n) = Inr t)"
    unfolding g by (cases "getNewTitle (note_Body n)") simp_all
  moreover have "\<not> Contains (note_Body n) ''** to **''
                 \<Longrightarrow> GetNoteType n = Inl (IndexOutOfRange 1 1)"
    unfolding g by (simp add: getNewTitle_panic)
  ultimately show ?thesis by (simp add: getNewTitle_total_iff)
qed

theorem GetNoteType_title_partial_witness:
  "note_System \<lparr>note_ID = 1, note_System = True, note_Body = ''changed title from a to b'',
                 note_Author = 1, note_CreatedAt = 0, note_UpdatedAt = 0\<rparr>
   \<and> HasPrefix ''changed title from a to b'' ''changed title from''
   \<and> \<not> Contains ''changed title from a to b'' ''** to **''
   \<and> GetNoteType \<lparr>note_ID = 1, note_System = True, note_Body = ''changed title from a to b'',
                    note_Author = 1, note_CreatedAt = 0, note_UpdatedAt = 0\<rparr>
       = Inl (IndexOutOfRange 1 1)"
proof -
  let ?n = "\<lparr>note_ID = 1, note_System = True, note_Body = ''changed title from a to b'',
             note_Author = 1, note_CreatedAt = 0, note_UpdatedAt = 0\<rparr>"
  have h1: "note_System ?n" by simp
  have h2: "HasPrefix (note_Body ?n) ''changed title from''" by (simp add: HasPrefix_def)
  have h3: "\<not> Contains ''changed title from a to b'' ''** to **''"
    by (simp add: Contains_def HasPrefix_def)
  from GetNoteType_title_partial [OF h1 h2] h2 h3 show ?thesis by simp
qed

section \<open>Pagination of the issue iterator\<close>

lemma paged_nat:
  assumes "0 < P"
  shows "paged xs (int q + 1) (int P) = (take P (drop (q * P) xs), int ((length xs + P - 1) div P))"
proof -
  have "int (length xs) + int P - 1 = int (length xs + P - 1)" using assms by simp
  then have "(int (length xs) + int P - 1) div int P = int ((length xs + P - 1) div P)"
    by (simp only: zdiv_int)
  moreover have "nat ((int q + 1 - 1) * int P) = q * P"
    by (simp add: nat_mult_distrib)
  ultimately show ?thesis by (simp add: paged_def)
qed

text \<open>The page of item \<open>j\<close> exists, and it is the last page exactly when the listing ends in it.\<close>

lemma pages_arith:
  fixes P N j :: nat
  assumes "0 < P" "j < N"
  shows "j div P + 1 \<le> (N + P - 1) div P"
    and "j div P * P < N"
    and "(j div P + 1 = (N + P - 1) div P) = (N \<le> (j div P + 1) * P)"
proof -
  let ?q = "j div P"
  have a: "?q * P \<le> j" by simp
  from a assms(2) show lt: "?q * P < N" by (rule le_less_trans)
  have "(?q + 1) * P = ?q * P + P" by (simp add: algebra_simps)
  then have "(?q + 1) * P \<le> N + P - 1" using lt by linarith
  then have "(?q + 1) * P div P \<le> (N + P - 1) div P" by (rule div_le_mono)
  then show le: "?q + 1 \<le> (N + P - 1) div P" using assms by simp
  show "(?q + 1 = (N + P - 1) div P) = (N \<le> (?q + 1) * P)"
  proof
    assume e: "?q + 1 = (N + P - 1) div P"
    have "N + P - 1 < ((N + P - 1) div P + 1) * P"
      using assms(1) by (metis Suc_eq_plus1 dividend_less_div_times mult.commute add.commute mult_Suc)
    with e have "N + P - 1 < (?q + 2) * P" by simp
    moreover have "(?q + 2) * P = (?q + 1) * P + P" by (simp add: algebra_simps)
    ultimately show "N \<le> (?q + 1) * P" using assms by linarith
  next
    assume "N \<le> (?q + 1) * P"
    moreover have "(?q + 2) * P = (?q + 1) * P + P" by (simp add: algebra_simps)
    ultimately have "N + P - 1 < (?q + 2) * P" using assms by linarith
    then have "(N + P - 1) div P < ?q + 2"
      using assms(1) by (simp add: less_mult_imp_div_less)
    with le show "?q + 1 = (N + P - 1) div P" by simp
  qed
qed

lemma serves_page:
  assumes "serves w conf xs" "conf_capacity conf = int P" "0 < P"
  shows "ListRepoIssues w (conf_owner conf) (conf_project conf) (int q + 1) (int P)
         = Inr (take P (drop (q * P) xs), int ((length xs + P - 1) div P))"
  using assms(1) paged_nat [OF assms(3), of xs q] by (simp add: serves_def assms(2))

lemma next_first:
  assumes "serves w conf xs" "conf_capacity conf = int P" "0 < P" "xs \<noteq> []"
  shows "issue_Next w conf newIssueIterator log
         = ((True, None), at_item xs P 0, log @ [issue_req conf 1])"
proof -
  have ne: "take P xs \<noteq> []" using assms(3,4) by simp
  have lp: "(int ((length xs + P - 1) div P) = 1) = (1 = (length xs + P - 1) div P)" by auto
  show ?thesis
    using serves_page [OF assms(1-3), of 0] ne lp
    by (simp add: issue_Next_def issue_getNext_def newIssueIterator_def issue_Reset_def
        at_item_def issue_req_def assms(2))
qed

lemma value_at:
  assumes "0 < P" "j < length xs"
  shows "issue_Value (at_item xs P j) = Inr (xs ! j)"
proof -
  have "j mod P < P" using assms(1) by simp
  moreover have "j div P * P + j mod P = j" by simp
  moreover have "j mod P < length xs - j div P * P"
    using assms(2) \<open>j div P * P + j mod P = j\<close> by linarith
  ultimately show ?thesis
    by (simp add: issue_Value_def slice_at_def at_item_def)
qed

lemma next_last:
  assumes "0 < P" "Suc j = length xs"
  shows "issue_Next w conf (at_item xs P j) log = ((False, None), at_item xs P j, log)"
proof -
  have jl: "j < length xs" using assms(2) by simp
  have e: "j div P * P + j mod P = j" by simp
  have "j mod P < P" using assms(1) by simp
  have m: "(j div P + 1) * P = j div P * P + P" by (simp add: algebra_simps)
  have "length xs \<le> (j div P + 1) * P"
    using e assms(2) \<open>j mod P < P\<close> unfolding m by linarith
  then have lastp: "j div P + 1 = (length xs + P - 1) div P"
    using pages_arith(3) [OF assms(1) jl] by simp
  have "length xs - j div P * P = Suc (j mod P)" using e assms(2) by linarith
  then have len: "min P (length xs - j div P * P) = Suc (j mod P)"
    using \<open>j mod P < P\<close> by simp
  show ?thesis
    using lastp len
    by (simp add: issue_Next_def issue_getNext_def at_item_def len_cache_def)
qed

lemma next_step:
  assumes "serves w conf xs" "conf_capacity conf = int P" "0 < P" "Suc j < length xs"
  shows "issue_Next w conf (at_item xs P j) log
         = ((True, None), at_item xs P (Suc j),
            if Suc j mod P = 0 then log @ [issue_req conf (Suc j div P + 1)] else log)"
proof -
  let ?q = "j div P"
  have jl: "j < length xs" using assms(4) by simp
  have e: "?q * P + j mod P = j" by simp
  have mP: "j mod P < P" using assms(3) by simp
  show ?thesis
  proof (cases "Suc j mod P = 0")
    case False
    then have S: "Suc (j mod P) \<noteq> P" by (auto simp: mod_Suc)
    then have md: "Suc j mod P = Suc (j mod P)" and dv: "Suc j div P = ?q"
      using False by (simp_all add: mod_Suc div_Suc)
    have "Suc (j mod P) < P" using S mP by simp
    moreover have "Suc (j mod P) < length xs - ?q * P" using e assms(4) by linarith
    ultimately have "int (j mod P) < len_cache (Some (take P (drop (?q * P) xs))) - 1"
      by (simp add: len_cache_def)
    then show ?thesis
      using False md dv by (simp add: issue_Next_def at_item_def)
  next
    case True
    then have S: "Suc (j mod P) = P" by (auto simp: mod_Suc split: if_splits)
    then have dv: "Suc j div P = Suc ?q" using True by (simp add: div_Suc)
    have "Suc ?q * P = ?q * P + P" by simp
    then have sj: "Suc ?q * P = Suc j" using e S by linarith
    have notlast: "\<not> (?q + 1 = (length xs + P - 1) div P)"
      using pages_arith(3) [OF assms(3) jl] sj assms(4) by simp
    have "\<not> int (j mod P) < len_cache (Some (take P (drop (?q * P) xs))) - 1"
      using S by (simp add: len_cache_def)
    moreover have ne: "take P (drop (Suc ?q * P) xs) \<noteq> []"
      using assms(3,4) sj by simp
    moreover have "(int ((length xs + P - 1) div P) = int ?q + 2)
                   = (Suc ?q + 1 = (length xs + P - 1) div P)" by auto
    moreover have "ListRepoIssues w (conf_owner conf) (conf_project conf) (int ?q + 2) (int P)
         = Inr (take P (drop (Suc ?q * P) xs), int ((length xs + P - 1) div P))"
      using serves_page [OF assms(1-3), of "Suc ?q"] by (simp add: algebra_simps)
    ultimately show ?thesis
      using True dv notlast
      by (simp add: issue_Next_def issue_getNext_def at_item_def issue_req_def
          assms(2) Let_def)
  qed
qed

text \<open>
  The loop started on item \<open>j\<close> yields the items after \<open>j\<close> and fetches the pages after
  the page of \<open>j\<close>, once each.
\<close>

lemma loop_from:
  assumes "serves w conf xs" "conf_capacity conf = int P" "0 < P"
  shows "j < length xs \<Longrightarrow> length xs - j \<le> fuel \<Longrightarrow>
         issue_loop fuel w conf (at_item xs P j) log
         = Some (Inr (drop (Suc j) xs, None, at_item xs P (length xs - 1),
                      log @ map (issue_req conf)
                              [Suc (Suc (j div P)) ..< Suc ((length xs + P - 1) div P)]))"
proof (induction fuel arbitrary: j log)
  case 0
  then show ?case by simp
next
  case (Suc fuel)
  show ?case
  proof (cases "Suc j = length xs")
    case True
    have "j div P + 1 = (length xs + P - 1) div P"
    proof -
      have e: "j div P * P + j mod P = j" by simp
      have m: "(j div P + 1) * P = j div P * P + P" by (simp add: algebra_simps)
      have "j mod P < P" using assms(3) by simp
      then have "length xs \<le> (j div P + 1) * P" using e True unfolding m by linarith
      then show ?thesis using pages_arith(3) [OF assms(3) Suc.prems(1)] by simp
    qed
    then have "[Suc (Suc (j div P)) ..< Suc ((length xs + P - 1) div P)] = []" by simp
    moreover have "length xs - 1 = j" using True by simp
    ultimately show ?thesis
      using next_last [OF assms(3) True, of w conf log] True by simp
  next
    case False
    with Suc.prems have lt: "Suc j < length xs" and fu: "length xs - Suc j \<le> fuel" by simp_all
    let ?log' = "if Suc j mod P = 0 then log @ [issue_req conf (Suc j div P + 1)] else log"
    have ih: "issue_loop fuel w conf (at_item xs P (Suc j)) ?log'
         = Some (Inr (drop (Suc (Suc j)) xs, None, at_item xs P (length xs - 1),
              ?log' @ map (issue_req conf)
                        [Suc (Suc (Suc j div P)) ..< Suc ((length xs + P - 1) div P)]))"
      using Suc.IH [OF lt fu] .
    have logs: "?log' @ map (issue_req conf)
                          [Suc (Suc (Suc j div P)) ..< Suc ((length xs + P - 1) div P)]
          = log @ map (issue_req conf) [Suc (Suc (j div P)) ..< Suc ((length xs + P - 1) div P)]"
    proof (cases "Suc j mod P = 0")
      case True
      then have dv: "Suc j div P = Suc (j div P)" by (simp add: div_Suc)
      have "Suc j div P + 1 \<le> (length xs + P - 1) div P"
        using pages_arith(1) [OF assms(3) lt] .
      then have "[Suc (Suc (j div P)) ..< Suc ((length xs + P - 1) div P)]
                 = Suc (Suc (j div P))
                   # [Suc (Suc (Suc (j div P))) ..< Suc ((length xs + P - 1) div P)]"
        using dv by (simp add: upt_conv_Cons)
      then show ?thesis using True dv by simp
    next
      case False
      then have "Suc j div P = j div P" by (simp add: div_Suc)
      then show ?thesis using False by simp
    qed
    have dr: "xs ! Suc j # drop (Suc (Suc j)) xs = drop (Suc j) xs"
      using lt by (simp add: Cons_nth_drop_Suc)
    show ?thesis
      using next_step [OF assms lt, of log] value_at [OF assms(3) lt] ih logs dr
      by (simp del: upt_Suc)
  qed
qed

lemma issue_Reset_eq: "issue_Reset (ii :: issueIterator) = newIssueIterator"
  by (simp add: newIssueIterator_def issue_Reset_def)

text \<open>
  C6: against a listing of \<open>N \<ge> 1\<close> items served in pages of \<open>P \<ge> 1\<close> items, each
  response reporting \<open>ceil (N / P)\<close> pages, the loop over \<open>Next\<close> started on a new issue
  iterator returns (given fuel for its \<open>N + 1\<close> calls) all \<open>N\<close> items in order after
  fetching the pages \<open>1 .. ceil (N / P)\<close> once each. In the iterator it leaves, \<open>Next\<close>
  returns false without a fetch and without a change of state, so every later call does
  too; \<open>Reset\<close> gives the new iterator back, whose \<open>Next\<close> fetches page 1 again.
\<close>

theorem issue_pagination:
  assumes "serves w conf xs" and "xs \<noteq> []" and "0 < conf_capacity conf"
    and "length xs < fuel"
  shows "\<exists>ii'.
           issue_loop fuel w conf newIssueIterator []
             = Some (Inr (xs, None, ii',
                          map (issue_req conf)
                            [1 ..< Suc (total_pages (length xs) (conf_capacity conf))]))
         \<and> (\<forall>log. issue_Next w conf ii' log = ((False, None), ii', log))
         \<and> issue_Reset ii' = newIssueIterator
         \<and> (\<forall>log. snd (snd (issue_Next w conf (issue_Reset ii') log))
                    = log @ [issue_req conf 1])"
proof -
  define P where "P = nat (conf_capacity conf)"
  have P: "0 < P" "conf_capacity conf = int P" using assms(3) by (simp_all add: P_def)
  let ?N = "length xs"
  let ?T = "(?N + P - 1) div P"
  have N: "0 < ?N" using assms(2) by simp
  have tp: "total_pages ?N (conf_capacity conf) = ?T"
  proof -
    have "int ?N + int P - 1 = int (?N + P - 1)" using P(1) by simp
    then have "(int ?N + int P - 1) div int P = int ?T" by (simp only: zdiv_int)
    then show ?thesis by (simp add: total_pages_def P(2))
  qed
  obtain f where f: "fuel = Suc f" and fN: "?N \<le> f"
    using assms(4) by (cases fuel) simp_all
  have first: "issue_Next w conf newIssueIterator []
               = ((True, None), at_item xs P 0, [issue_req conf 1])"
    using next_first [OF assms(1) P(2) P(1) assms(2), of "[]"] by simp
  have rest: "issue_loop f w conf (at_item xs P 0) [issue_req conf 1]
         = Some (Inr (drop (Suc 0) xs, None, at_item xs P (?N - 1),
                      [issue_req conf 1]
                      @ map (issue_req conf) [Suc (Suc (0 div P)) ..< Suc ?T]))"
    using loop_from [OF assms(1) P(2) P(1) N, of f "[issue_req conf 1]"] fN by simp
  have "1 \<le> ?T" using pages_arith(1) [OF P(1) N] by simp
  then have up: "[1 ..< Suc ?T] = 1 # [Suc (Suc 0) ..< Suc ?T]"
    by (simp add: upt_conv_Cons del: upt_Suc)
  have hd: "xs ! 0 # drop (Suc 0) xs = xs" using N by (simp add: Cons_nth_drop_Suc)
  have loop: "issue_loop fuel w conf newIssueIterator []
        = Some (Inr (xs, None, at_item xs P (?N - 1), map (issue_req conf) [1 ..< Suc ?T]))"
    using first rest value_at [OF P(1) N] hd up f by (simp del: upt_Suc)
  have last: "issue_Next w conf (at_item xs P (?N - 1)) log
              = ((False, None), at_item xs P (?N - 1), log)" for log
    using next_last [OF P(1), of "?N - 1" xs w conf log] N by simp
  have again: "snd (snd (issue_Next w conf (issue_Reset (at_item xs P (?N - 1))) log))
         = log @ [issue_req conf 1]" for log
    using next_first [OF assms(1) P(2) P(1) assms(2), of log] by (simp add: issue_Reset_eq)
  show ?thesis
    using loop last again unfolding tp
    by (intro exI [of _ "at_item xs P (?N - 1)"]) (simp add: issue_Reset_eq)
qed

theorem issue_pagination_witness:
  "serves (pagedWorld [mkIssue 1, mkIssue 2, mkIssue 3]) conf2 [mkIssue 1, mkIssue 2, mkIssue 3]
   \<and> [mkIssue 1, mkIssue 2, mkIssue 3] \<noteq> []
   \<and> 0 < conf_capacity conf2 \<and> length [mkIssue 1, mkIssue 2, mkIssue 3] < (4::nat)
   \<and> (\<exists>ii'. issue_loop 4 (pagedWorld [mkIssue 1, mkIssue 2, mkIssue 3]) conf2 newIssueIterator []
             = Some (Inr ([mkIssue 1, mkIssue 2, mkIssue 3], None, ii',
                  [(ReqRepoIssues ''o'' ''p'' 1 2, None), (ReqRepoIssues ''o'' ''p'' 2 2, None)])))"
proof -
  have s: "serves (pagedWorld [mkIssue 1, mkIssue 2, mkIssue 3]) conf2
             [mkIssue 1, mkIssue 2, mkIssue 3]"
    by (simp add: serves_def pagedWorld_def)
  have t: "map (issue_req conf2)
             [1 ..< Suc (total_pages (length [mkIssue 1, mkIssue 2, mkIssue 3])
                           (conf_capacity conf2))]
      = [(ReqRepoIssues ''o'' ''p'' 1 2, None), (ReqRepoIssues ''o'' ''p'' 2 2, None)]"
    by (simp add: total_pages_def conf2_def issue_req_def upt_conv_Cons)
  show ?thesis
    using issue_pagination [OF s, of 4] s unfolding t
    by (auto simp: conf2_def)
qed

section \<open>The composite iterator\<close>

text \<open>
  One \<open>Next\<close> of a sub-iterator leaves the log as it is and returns no error, or appends
  one fetch with the error it returns; a call that returns an error returns false.
\<close>

lemma issue_Next_log:
  assumes "issue_Next w conf ii log = ((m, err), ii', log')"
  shows "(log' = log \<and> err = None)
         \<or> (\<exists>req. log' = log @ [(req, err)] \<and> (err \<noteq> None \<longrightarrow> \<not> m))"
  using assms
  by (auto simp: issue_Next_def issue_getNext_def Let_def split: if_splits sum.splits prod.splits)

lemma note_Next_log:
  assumes "note_Next w conf ni log = ((m, err), ni', log')"
  shows "(log' = log \<and> err = None)
         \<or> (\<exists>req. log' = log @ [(req, err)] \<and> (err \<noteq> None \<longrightarrow> \<not> m))"
  using assms
  by (auto simp: note_Next_def note_getNext_def Let_def split: if_splits sum.splits prod.splits)

lemma labelEvent_Next_log:
  assumes "labelEvent_Next w conf li log = ((m, err), li', log')"
  shows "(log' = log \<and> err = None)
         \<or> (\<exists>req. log' = log @ [(req, err)] \<and> (err \<noteq> None \<longrightarrow> \<not> m))"
  using assms
  by (auto simp: labelEvent_Next_def labelEvent_getNext_def Let_def
      split: if_splits sum.splits prod.splits)

lemma step_sticky: "it_err i \<noteq> None \<Longrightarrow> step w c (i, log) = (Inr False, i, log)"
  by (cases c) (simp_all add: NextIssue_def NextNote_def NextLabelEvent_def)

lemma run_sticky:
  "it_err i \<noteq> None \<Longrightarrow> run cs (i, log) = (replicate (length cs) (Inr False), i, log)"
proof (induction cs)
  case Nil
  then show ?case by simp
next
  case (Cons a cs)
  obtain w c where a: "a = (w, c)" by (cases a)
  show ?case using Cons by (simp add: a step_sticky)
qed

lemma step_failed_fetch:
  assumes "step w c (i, log) = (r, i', log')" and "log' = log @ [(req, Some e)]"
  shows "r = Inr False \<and> it_err i' = Some e"
proof (cases c)
  case CallNextIssue
  obtain m err ii l where n: "issue_Next w (it_conf i) (it_issue i) log = ((m, err), ii, l)"
    by (metis prod.exhaust)
  from issue_Next_log [OF n] assms n CallNextIssue show ?thesis
    by (auto simp: NextIssue_def Let_def split: if_splits sum.splits)
next
  case CallNextNote
  obtain m err ni l where n: "note_Next w (it_conf i) (it_note i) log = ((m, err), ni, l)"
    by (metis prod.exhaust)
  from note_Next_log [OF n] assms n CallNextNote show ?thesis
    by (auto simp: NextNote_def Let_def split: if_splits)
next
  case CallNextLabelEvent
  obtain m err li l where
    n: "labelEvent_Next w (it_conf i) (it_labelEvent i) log = ((m, err), li, l)"
    by (metis prod.exhaust)
  from labelEvent_Next_log [OF n] assms n CallNextLabelEvent show ?thesis
    by (auto simp: NextLabelEvent_def Let_def split: if_splits)
qed

text \<open>
  C7: when a call of \<open>NextIssue\<close>, \<open>NextNote\<close> or \<open>NextLabelEvent\<close> issues a fetch that
  answers an error \<open>e\<close> (the call appends that fetch to the log), the call returns false
  and \<open>Error\<close> is \<open>e\<close> afterwards; every later sequence of calls, whatever the remote
  side answers by then, returns false at each call and leaves the iterator and the
  fetch log as they are: no further fetch, and \<open>Error\<close> stays \<open>e\<close>.
\<close>

theorem sticky_error:
  assumes "step w c (i, log) = (r, i', log')" and "log' = log @ [(req, Some e)]"
  shows "r = Inr False \<and> Error i' = Some e
         \<and> (\<forall>cs. run cs (i', log') = (replicate (length cs) (Inr False), i', log'))"
proof -
  from step_failed_fetch [OF assms] have r: "r = Inr False" and e: "it_err i' = Some e"
    by simp_all
  from e have "run cs (i', log') = (replicate (length cs) (Inr False), i', log')" for cs
    by (simp add: run_sticky)
  with r e show ?thesis by (simp add: Error_def)
qed

theorem sticky_error_witness:
  "snd (snd afterFailedNote) = [] @ [(ReqIssueNotes ''p'' 1 1 2, Some (ErrOther ''timeout''))]
   \<and> fst afterFailedNote = Inr False
   \<and> Error (fst (snd afterFailedNote)) = Some (ErrOther ''timeout'')
   \<and> run [(pagedWorld [mkIssue 1, mkIssue 2], CallNextIssue),
           (pagedWorld [], CallNextNote),
           (failingWorld, CallNextLabelEvent)] (snd afterFailedNote)
       = ([Inr False, Inr False, Inr False], snd afterFailedNote)"
proof -
  have h1: "step failingWorld CallNextNote (afterFirstIssue, [])
            = (fst afterFailedNote, fst (snd afterFailedNote), snd (snd afterFailedNote))"
    by (simp add: afterFailedNote_def)
  have h2: "snd (snd afterFailedNote)
            = [] @ [(ReqIssueNotes ''p'' 1 1 2, Some (ErrOther ''timeout''))]"
    by (simp add: afterFailedNote_def afterFirstIssue_def failingWorld_def NewIterator_def
        NextIssue_def NextNote_def issue_Next_def issue_getNext_def note_Next_def
        note_getNext_def newIssueIterator_def newNoteIterator_def newLabelEventIterator_def
        issue_Reset_def note_Reset_def labelEvent_Reset_def issue_Value_def slice_at_def
        mkIssue_def Let_def)
  note s = sticky_error [OF h1 h2]
  from s have a: "fst afterFailedNote = Inr False"
    and b: "Error (fst (snd afterFailedNote)) = Some (ErrOther ''timeout'')"
    by simp_all
  from s have c: "run cs (snd afterFailedNote)
                  = (replicate (length cs) (Inr False), snd afterFailedNote)" for cs
    by (simp del: run.simps)
  from a b h2 c [of "[(pagedWorld [mkIssue 1, mkIssue 2], CallNextIssue),
                      (pagedWorld [], CallNextNote), (failingWorld, CallNextLabelEvent)]"]
  show ?thesis by (simp del: run.simps)
qed

text \<open>
  C9: with no sticky error and a live context, \<open>NextIssue\<close> on a new iterator whose
  first page fetch answers an empty list without error ends in the panic of indexing
  the nil cache at \<open>-1\<close>. In general, when the issue iterator's \<open>Next\<close> returns without
  error, \<open>NextIssue\<close> returns a boolean (true or false) exactly when the issue cache
  holds an element at the iterator's index, so it returns false without a panic only over
  a cache with at least one element.
\<close>

theorem NextIssue_empty_listing:
  assumes "it_err i = None" and "\<not> ctx_Err w"
  shows "(it_issue i = newIssueIterator
            \<longrightarrow> ListRepoIssues w (conf_owner (it_conf i)) (conf_project (it_conf i)) 1
                   (conf_capacity (it_conf i)) = Inr ([], t)
            \<longrightarrow> fst (NextIssue w i log) = Inl (IndexOutOfRange (-1) 0))
         \<and> (\<forall>m ii' log'. issue_Next w (it_conf i) (it_issue i) log = ((m, None), ii', log')
              \<longrightarrow> ((\<exists>b. fst (NextIssue w i log) = Inr b)
                    \<longleftrightarrow> (\<exists>c. ii_cache ii' = Some c \<and> 0 \<le> ii_index ii'
                              \<and> ii_index ii' < int (length c))))"
proof (intro conjI impI allI)
  assume "it_issue i = newIssueIterator"
    and "ListRepoIssues w (conf_owner (it_conf i)) (conf_project (it_conf i)) 1
           (conf_capacity (it_conf i)) = Inr ([], t)"
  with assms show "fst (NextIssue w i log) = Inl (IndexOutOfRange (-1) 0)"
    by (simp add: NextIssue_def issue_Next_def issue_getNext_def newIssueIterator_def
        issue_Reset_def issue_Value_def slice_at_def Let_def)
next
  fix m ii' log'
  assume "issue_Next w (it_conf i) (it_issue i) log = ((m, None), ii', log')"
  with assms show "(\<exists>b. fst (NextIssue w i log) = Inr b)
        \<longleftrightarrow> (\<exists>c. ii_cache ii' = Some c \<and> 0 \<le> ii_index ii' \<and> ii_index ii' < int (length c))"
    by (auto simp: NextIssue_def issue_Value_def slice_at_def Let_def
        split: option.splits sum.splits if_splits)
qed

theorem NextIssue_empty_listing_witness:
  "it_err (NewIterator 2 ''o'' ''p'') = None \<and> \<not> ctx_Err (pagedWorld [])
   \<and> it_issue (NewIterator 2 ''o'' ''p'') = newIssueIterator
   \<and> ListRepoIssues (pagedWorld []) ''o'' ''p'' 1 2 = Inr ([], 0)
   \<and> fst (NextIssue (pagedWorld []) (NewIterator 2 ''o'' ''p'') []) = Inl (IndexOutOfRange (-1) 0)"
proof -
  have h1: "it_err (NewIterator 2 ''o'' ''p'') = None" by (simp add: NewIterator_def)
  have h2: "\<not> ctx_Err (pagedWorld [])" by (simp add: pagedWorld_def)
  have h3: "it_issue (NewIterator 2 ''o'' ''p'') = newIssueIterator" by (simp add: NewIterator_def)
  have h4: "ListRepoIssues (pagedWorld []) ''o'' ''p'' 1 2 = Inr ([], 0)"
    by (simp add: pagedWorld_def paged_def)
  have c: "conf_owner (it_conf (NewIterator 2 ''o'' ''p'')) = ''o''"
    "conf_project (it_conf (NewIterator 2 ''o'' ''p'')) = ''p''"
    "conf_capacity (it_conf (NewIterator 2 ''o'' ''p'')) = 2"
    by (simp_all add: NewIterator_def)
  from NextIssue_empty_listing [OF h1 h2, of 0 "[]"] h1 h2 h3 h4 show ?thesis
    by (simp add: c)
qed

section \<open>The importer and the exporter\<close>

lemmas store_defs = append_op_def CloseRaw_def OpenRaw_def AddCommentRaw_def EditCommentRaw_def
  SetTitleRaw_def ForceChangeLabelsRaw_def add_immutable_def SetMetadata_def NeedCommit_def
  Commit_def CommitAsNeeded_def ResolveOperationWithMetadata_def GetMetadata_def bug_Id_def
  Comments_def SearchComment_def CreateMetadata_def GetCreateMetadata_def ResolveBugMatcher_def
  NewBugRaw_def store_bug_def ident_Id_def ResolveIdentityImmutableMetadata_def
  NewIdentityRaw_def at_key_def

lemmas key_defs = target_def metaKeyGiteaId_def metaKeyGiteaUrl_def metaKeyGiteaLogin_def
  metaKeyGiteaBaseUrl_def confKeyOwner_def confKeyProject_def confKeyGiteaBaseUrl_def
  confKeyDefaultLogin_def metaKeyGiteaProject_def confKeyProjectID_def MetaKeyOrigin_def
  MetaKeyLogin_def

lemmas example_defs = okStore_def exConf_def remoteUser_def exImportEnv_def exImporter_def
  emptyRepo_def comment_def exExportEnv_def repoAliceBob_def aliceClient_def exExporter_def
  localBug_def labelBug_def mkIssue_def closedNote_def addLabel_def

lemmas export_defs = buildClient_def cacheAllClient_def Init_def getIdentityClient_def
  markOperationAsExported_def send_def remote_call_def export_op_def exportBug_walk_def
  exportBug_def slice_at_def

lemmas import_defs = ensurePerson_def ensureIssue_def ensureNote_def ensureLabelEvent_def
  importIssue_def parseID_def Itoa_def decimal.simps GetNoteType_def

subsection \<open>Resolving the bug of an issue\<close>

text \<open>
  C1 fails on the code. \<open>ensureIssue\<close> stores the project under the project key and the
  base URL under the base-URL key, and its matcher compares the stored base URL with the
  configured project and the stored project with the configured base URL. With the
  project \<open>42\<close> of \<open>https://gitea.com/\<close>, the import of issue 1 into an empty store
  creates bug 0, and \<open>ensureIssue\<close> for the same issue over the resulting store finds
  no bug and creates bug 1 with the same creation metadata.
\<close>

theorem ensureIssue_second_bug:
  "(case importIssue exImportEnv exImporter emptyRepo (mkIssue 1) [] [] of
      Returns (r1, b1, out1) \<Rightarrow>
        (case ensureIssue exImportEnv exImporter r1 (mkIssue 1) of
           Inr (r2, b2, out2) \<Rightarrow>
             bug_num b1 = 0 \<and> bug_num b2 = 1 \<and> length (repo_bugs r2) = 2
             \<and> CreateMetadata b2 = CreateMetadata b1 \<and> out2 = [ImportBug (BugId 1)]
         | Inl _ \<Rightarrow> False)
    | _ \<Rightarrow> False)"
  by (simp add: store_defs key_defs example_defs import_defs Let_def)

subsection \<open>The clients of the identities\<close>

text \<open>
  C2 fails on the code. \<open>cacheAllClient\<close> builds every client from \<open>creds[0]\<close>: with
  a token for \<open>alice\<close> and a token for \<open>bob\<close> in the credential store, in this
  order, the client cached for Bob's identity carries the token of Alice.
\<close>

theorem cacheAllClient_first_token:
  "Init exExportEnv repoAliceBob exConf ''42'' = Returns exExporter
   \<and> map_of (ge_identityClient exExporter) (IdentityId 1)
       = Some \<lparr>client_baseURL = ''https://gitea.com/'', client_token = ''token-of-alice''\<rparr>"
  by (simp add: store_defs key_defs example_defs export_defs Let_def)

subsection \<open>Exporting a bug twice\<close>

text \<open>
  C4 fails on the code. After creating the remote issue \<open>exportBug\<close> records the
  variable \<open>GiteaBaseUrl\<close>, which nothing assigns, as the base URL of the creation
  operation, and records no project. The export of Alice's local bug creates the issue
  and stores the empty base URL; the next export of the bug, with the same exporter,
  sends the notification that the issue comes from another instance and stops.
\<close>

theorem export_rerun_skips:
  "(case exportBug exExportEnv exExporter localBug of
      Returns s1 \<Rightarrow>
        w_writes s1 = [CreateIssue aliceClient ''42'' ''title'' ''body'']
        \<and> GetCreateMetadata (w_bug s1) metaKeyGiteaBaseUrl = Some ''''
        \<and> GetCreateMetadata (w_bug s1) metaKeyGiteaProject = None
        \<and> (case exportBug exExportEnv exExporter (w_bug s1) of
              Returns s2 \<Rightarrow>
                w_writes s2 = []
                \<and> w_out s2 = [ExportNothing (BugId 0)
                                ''skipping issue imported from another Gitea instance'']
            | _ \<Rightarrow> False)
    | _ \<Rightarrow> False)"
  by (simp add: store_defs key_defs example_defs export_defs Itoa_def decimal.simps Atoi_def
      Let_def)

subsection \<open>The labels sent by the walk\<close>

text \<open>
  C8 fails on the code. The walk skips an operation that carries a remote id before it
  reaches the label set, so the labels of a label change exported by an earlier run (or
  imported) never enter the set. The export of the bug on which Alice added \<open>A\<close> and
  \<open>B\<close> sends the set \<open>{A, B}\<close> and tags the operation; after Alice removes \<open>A\<close>,
  the next export sends the empty set, not \<open>{B}\<close>.
\<close>

theorem export_labels_after_resume:
  "(case exportBug exExportEnv exExporter labelBug of
      Returns s1 \<Rightarrow>
        w_writes s1 = [UpdateIssueLabels aliceClient ''42'' 1 {''A'', ''B''}]
        \<and> (case ForceChangeLabelsRaw okStore (w_bug s1) (IdentityId 0) 0 [] [''A''] [] of
              Inr (b2, _) \<Rightarrow>
                (case exportBug exExportEnv exExporter b2 of
                   Returns s2 \<Rightarrow> w_writes s2 = [UpdateIssueLabels aliceClient ''42'' 1 {}]
                 | _ \<Rightarrow> False)
            | Inl _ \<Rightarrow> False)
    | _ \<Rightarrow> False)"
  by (simp add: store_defs key_defs example_defs export_defs Itoa_def decimal.simps Atoi_def
      Let_def)

subsection \<open>Exporting an imported bug\<close>

lemma append_op_result:
  assumes "append_op st b author t k md = Inr (b', op)"
  shows "bug_ops b' = bug_ops b @ [op] \<and> op_Metadata op = md \<and> op_kind op = k"
  using assms by (auto simp: append_op_def Let_def split: option.splits)

lemma ensurePerson_out:
  "ensurePerson env r uid = Inr (r', a, out)
   \<Longrightarrow> list_all (\<lambda>x. \<not> is_bug_creation x \<and> \<not> is_comment_edition x) out"
  by (auto simp: ensurePerson_def NewIdentityRaw_def Let_def is_bug_creation_def
      is_comment_edition_def split: sum.splits if_splits)

lemma all_tagged_append:
  "all_tagged b \<Longrightarrow> bug_ops b' = bug_ops b @ [op] \<Longrightarrow> tagged op \<Longrightarrow> all_tagged b'"
  by (auto simp: all_tagged_def split: list.splits)

lemma tagged_single: "op_Metadata op = [(metaKeyGiteaId, v)] \<Longrightarrow> tagged op"
  by (simp add: tagged_def GetMetadata_def)

text \<open>
  What one \<open>ensureNote\<close> leaves: the bug as it is, or one more operation, which carries
  the remote id unless the call reports a comment edition.
\<close>

lemma ensureNote_result:
  assumes "ensureNote env gi r b nt = Returns (r', b', out)"
  shows "list_all (\<lambda>x. \<not> is_bug_creation x) out
         \<and> (b' = b \<or> (\<exists>op. bug_ops b' = bug_ops b @ [op]
                         \<and> (tagged op \<or> (\<exists>x \<in> set out. is_comment_edition x))))"
proof -
  obtain i errResolve where res:
    "(case ResolveOperationWithMetadata b metaKeyGiteaId (parseID (note_ID nt)) of
        Inl err \<Rightarrow> (UnsetId, Some err) | Inr i \<Rightarrow> (i, None)) = (i, errResolve)"
    by (metis prod.exhaust)
  from assms res obtain r1 author out1 where
    p: "ensurePerson env r (note_Author nt) = Inr (r1, author, out1)"
    by (auto simp: ensureNote_def Let_def split: if_splits sum.splits)
  note po = ensurePerson_out [OF p]
  from assms res p obtain noteType body where
    g: "GetNoteType nt = Inr (noteType, body)"
    by (auto simp: ensureNote_def Let_def split: if_splits sum.splits)
  have bc: "list_all (\<lambda>x. \<not> is_bug_creation x) out1"
    using po by (simp add: list_all_iff)
  show ?thesis
    using assms res p g bc
    by (cases noteType)
      (auto simp: ensureNote_def Let_def CloseRaw_def OpenRaw_def AddCommentRaw_def
        EditCommentRaw_def SetTitleRaw_def is_bug_creation_def is_comment_edition_def
        dest!: append_op_result intro: tagged_single
        split: if_splits sum.splits list.splits)
qed

lemma ensureLabelEvent_result:
  assumes "ensureLabelEvent env gi r b ev = Returns (r', b', out)"
  shows "list_all (\<lambda>x. \<not> is_bug_creation x \<and> \<not> is_comment_edition x) out
         \<and> (b' = b \<or> (\<exists>op. bug_ops b' = bug_ops b @ [op] \<and> tagged op))"
  using assms
  by (auto simp: ensureLabelEvent_def ForceChangeLabelsRaw_def tagged_def GetMetadata_def
      dest!: append_op_result ensurePerson_out
      split: if_splits sum.splits)

lemma ensureNotes_out:
  "ensureNotes env gi r b nts = Returns (r', b', out)
   \<Longrightarrow> list_all (\<lambda>x. \<not> is_bug_creation x) out"
proof (induction nts arbitrary: r b out r' b')
  case Nil
  then show ?case by simp
next
  case (Cons nt nts)
  from Cons.prems(1) obtain r1 b1 out1 r2 b2 out2 where
    n: "ensureNote env gi r b nt = Returns (r1, b1, out1)"
    and ns: "ensureNotes env gi r1 b1 nts = Returns (r2, b2, out2)"
    and e: "out = out1 @ out2"
    by (auto split: res.splits)
  from ensureNote_result [OF n] Cons.IH [OF ns] e show ?case by simp
qed

lemma ensureNotes_all_tagged:
  "ensureNotes env gi r b nts = Returns (r', b', out) \<Longrightarrow> all_tagged b
   \<Longrightarrow> list_all (\<lambda>x. \<not> is_comment_edition x) out \<Longrightarrow> all_tagged b'"
proof (induction nts arbitrary: r b out r' b')
  case Nil
  then show ?case by simp
next
  case (Cons nt nts)
  from Cons.prems(1) obtain r1 b1 out1 r2 b2 out2 where
    n: "ensureNote env gi r b nt = Returns (r1, b1, out1)"
    and ns: "ensureNotes env gi r1 b1 nts = Returns (r2, b2, out2)"
    and e: "b' = b2" "out = out1 @ out2"
    by (auto split: res.splits)
  from Cons.prems(3) e have ne1: "list_all (\<lambda>x. \<not> is_comment_edition x) out1"
    and ne2: "list_all (\<lambda>x. \<not> is_comment_edition x) out2" by simp_all
  from ensureNote_result [OF n] ne1 Cons.prems(2) have "all_tagged b1"
    by (auto simp: list_all_iff intro: all_tagged_append)
  from Cons.IH [OF ns this ne2] e show ?case by simp
qed

lemma ensureLabelEvents_result:
  "ensureLabelEvents env gi r b evs = Returns (r', b', out) \<Longrightarrow>
   list_all (\<lambda>x. \<not> is_bug_creation x) out \<and> (all_tagged b \<longrightarrow> all_tagged b')"
proof (induction evs arbitrary: r b out r' b')
  case Nil
  then show ?case by simp
next
  case (Cons ev evs)
  from Cons.prems(1) obtain r1 b1 out1 r2 b2 out2 where
    n: "ensureLabelEvent env gi r b ev = Returns (r1, b1, out1)"
    and ns: "ensureLabelEvents env gi r1 b1 evs = Returns (r2, b2, out2)"
    and e: "b' = b2" "out = out1 @ out2"
    by (auto split: res.splits)
  from ensureLabelEvent_result [OF n] have "all_tagged b \<longrightarrow> all_tagged b1"
    and bc1: "list_all (\<lambda>x. \<not> is_bug_creation x) out1"
    by (auto simp: list_all_iff intro: all_tagged_append)
  with Cons.IH [OF ns] e show ?case by simp
qed

text \<open>A bug that \<open>ensureIssue\<close> reports as created holds its tagged creation operation.\<close>

lemma ensureIssue_created:
  assumes "ensureIssue env gi r issue = Inr (r', b, out)"
    and "\<exists>x \<in> set out. is_bug_creation x"
  shows "all_tagged b"
proof -
  from assms(1) obtain r1 author out1 where
    p: "ensurePerson env r (issue_Author issue) = Inr (r1, author, out1)"
    by (auto simp: ensureIssue_def split: sum.splits)
  from ensurePerson_out [OF p] have "\<forall>x \<in> set out1. \<not> is_bug_creation x"
    by (simp add: list_all_iff)
  with assms p show ?thesis
    by (auto simp: ensureIssue_def NewBugRaw_def Commit_def all_tagged_def tagged_def
        GetMetadata_def Let_def metaKeyGiteaId_def MetaKeyOrigin_def
        dest!: append_op_result split: sum.splits if_splits option.splits)
qed

lemma Commit_ops: "Commit st b = Inr b' \<Longrightarrow> bug_ops b' = bug_ops b"
  by (auto simp: Commit_def split: option.splits)

lemma all_tagged_ops: "bug_ops b' = bug_ops b \<Longrightarrow> all_tagged b' = all_tagged b"
  by (simp add: all_tagged_def)

lemma importIssue_all_tagged:
  assumes "importIssue env gi r issue notes events = Returns (r', b', out)"
    and "\<exists>x \<in> set out. is_bug_creation x"
    and "\<forall>x \<in> set out. \<not> is_comment_edition x"
  shows "all_tagged b'"
proof -
  have "\<exists>r0 b0 out0. ensureIssue env gi r issue = Inr (r0, b0, out0)"
    using assms(1) by (cases "ensureIssue env gi r issue") (auto simp: importIssue_def)
  then obtain r0 b0 out0 where i: "ensureIssue env gi r issue = Inr (r0, b0, out0)" by blast
  have "\<exists>r1 b1 out1. ensureNotes env gi r0 b0 notes = Returns (r1, b1, out1)"
    using assms(1) i by (cases "ensureNotes env gi r0 b0 notes") (auto simp: importIssue_def)
  then obtain r1 b1 out1 where n: "ensureNotes env gi r0 b0 notes = Returns (r1, b1, out1)"
    by blast
  have "\<exists>r2 b2 out2. ensureLabelEvents env gi r1 b1 events = Returns (r2, b2, out2)"
    using assms(1) i n
    by (cases "ensureLabelEvents env gi r1 b1 events") (auto simp: importIssue_def)
  then obtain r2 b2 out2 where
    l: "ensureLabelEvents env gi r1 b1 events = Returns (r2, b2, out2)" by blast
  have o: "out = out0 @ out1 @ out2
            \<or> out = out0 @ out1 @ out2 @ [ImportNothing (bug_Id b2) ''no imported operation'']"
    and b: "b' = b2 \<or> Commit (istore env) b2 = Inr b'"
    using assms(1) i n l by (auto simp: importIssue_def split: if_splits sum.splits)
  have sub: "set out \<subseteq> set out0 \<union> set out1 \<union> set out2
                        \<union> {ImportNothing (bug_Id b2) ''no imported operation''}"
    and sup: "set out1 \<subseteq> set out"
    using o by auto
  from sup assms(3) have ne: "list_all (\<lambda>x. \<not> is_comment_edition x) out1"
    unfolding list_all_iff by blast
  have c1: "\<forall>x \<in> set out1. \<not> is_bug_creation x"
    using ensureNotes_out [OF n] by (simp add: list_all_iff)
  have c2: "\<forall>x \<in> set out2. \<not> is_bug_creation x"
    using ensureLabelEvents_result [OF l] by (simp add: list_all_iff)
  have c3: "\<not> is_bug_creation (ImportNothing (bug_Id b2) ''no imported operation'')"
    by (simp add: is_bug_creation_def)
  from assms(2) obtain x where x: "x \<in> set out" "is_bug_creation x" by blast
  with sub c1 c2 c3 have "x \<in> set out0" by blast
  with x have "\<exists>x \<in> set out0. is_bug_creation x" by blast
  from ensureIssue_created [OF i this] have "all_tagged b0" .
  from ensureNotes_all_tagged [OF n this ne] have "all_tagged b1" .
  with ensureLabelEvents_result [OF l] have "all_tagged b2" by simp
  from b have "bug_ops b' = bug_ops b2" by (auto dest: Commit_ops)
  from all_tagged_ops [OF this] \<open>all_tagged b2\<close> show ?thesis by simp
qed

text \<open>The walk skips operations that carry the remote id: it calls and sends nothing.\<close>

lemma export_ops_tagged:
  "list_all tagged ops \<Longrightarrow>
   \<exists>s'. export_ops env g c ops s = Returns (True, s') \<and> w_writes s' = w_writes s
        \<and> w_bug s' = w_bug s \<and> w_bugUpdated s' = w_bugUpdated s \<and> w_out s' = w_out s"
proof (induction ops arbitrary: s)
  case Nil
  then show ?case by simp
next
  case (Cons op ops)
  from Cons.prems have t: "tagged op" and rest: "list_all tagged ops" by simp_all
  from t obtain v where v: "GetMetadata op metaKeyGiteaId = Some v"
    by (auto simp: tagged_def)
  let ?s = "s\<lparr>w_ge := (w_ge s)\<lparr>ge_cachedOperationIDs :=
                 (op_Id op, v) # ge_cachedOperationIDs (w_ge s)\<rparr>\<rparr>"
  have "export_ops env g c (op # ops) s = export_ops env g c ops s
        \<or> export_ops env g c (op # ops) s = export_ops env g c ops ?s"
    using v by (cases "op_kind op") simp_all
  with Cons.IH [OF rest, of s] Cons.IH [OF rest, of ?s] show ?case by auto
qed

lemma exportBug_walk_tagged:
  assumes "list_all tagged (tl (bug_ops (w_bug s)))"
  shows "\<exists>s'. exportBug_walk env createOp n str s = Returns s' \<and> w_writes s' = w_writes s"
proof -
  let ?s = "s\<lparr>w_ge := (w_ge s)\<lparr>ge_cachedOperationIDs :=
                  (op_Id createOp, str) # ge_cachedOperationIDs (w_ge s)\<rparr>,
                w_labelSet := {}\<rparr>"
  from export_ops_tagged [of "tl (bug_ops (w_bug ?s))" env n "op_Id createOp" ?s] assms
  obtain s' where
    "export_ops env n (op_Id createOp) (tl (bug_ops (w_bug ?s))) ?s = Returns (True, s')"
    and "w_writes s' = w_writes s" by auto
  then show ?thesis by (simp add: exportBug_walk_def Let_def send_def)
qed

lemma exportBug_all_tagged:
  assumes "all_tagged b"
  shows "\<exists>s. exportBug env ge b = Returns s \<and> w_writes s = []"
proof -
  from assms obtain c rest t m v where ops: "bug_ops b = c # rest"
    and k: "op_kind c = CreateOperation t m"
    and v: "GetCreateMetadata b metaKeyGiteaId = Some v"
    and r: "list_all tagged rest"
    by (auto simp: all_tagged_def tagged_def GetCreateMetadata_def CreateMetadata_def
        GetMetadata_def split: list.splits op_kind.splits)
  let ?s = "\<lparr>w_ge = ge, w_bug = b, w_labelSet = {}, w_bugUpdated = False,
             w_writes = [], w_out = []\<rparr>"
  have w: "\<exists>s'. exportBug_walk env c n str ?s = Returns s' \<and> w_writes s' = []" for n str
    using exportBug_walk_tagged [of ?s env c n str] r ops by simp
  show ?thesis
    using ops k v w
    by (auto simp: exportBug_def Let_def send_def split: option.splits sum.splits)
qed

text \<open>
  C3, as stated, fails: the comment edition that \<open>ensureNote\<close> appends for a note
  already mapped to an operation carries no metadata, and the export walk sends it.
  First, the import of issue 1 with a comment whose note id is 1 too: the note resolves
  to the creation operation, the importer appends an untagged edition of the first
  comment, and the export of the bug updates the description of the remote issue.
  Second, \<open>ensureNote\<close> for the note 5 of an imported bug, after its body has changed on
  the remote side: the untagged edition is exported as an update of the remote note.
\<close>

theorem import_untagged_edit_counterexample:
  "(case importIssue exImportEnv exImporter emptyRepo (mkIssue 1) [comment 1 1 ''hello''] [] of
      Returns (r, b, out) \<Rightarrow>
        out = [ImportIdentity (IdentityId 0), ImportBug (BugId 0), ImportCommentEdition (OpId 0 1)]
        \<and> (case exportBug exExportEnv exExporter b of
              Returns s \<Rightarrow> w_writes s = [UpdateIssueDescription aliceClient ''42'' 1 ''hello'']
            | _ \<Rightarrow> False)
    | _ \<Rightarrow> False)
   \<and> (case importIssue exImportEnv exImporter emptyRepo (mkIssue 1) [comment 5 1 ''hello''] [] of
      Returns (r, b, out) \<Rightarrow>
        (case ensureNote exImportEnv exImporter r b (comment 5 1 ''hello2'') of
           Returns (r2, b2, out2) \<Rightarrow>
             out2 = [ImportCommentEdition (OpId 0 2)]
             \<and> (case exportBug exExportEnv exExporter b2 of
                   Returns s \<Rightarrow> w_writes s = [UpdateIssueNote aliceClient ''42'' 1 5 ''hello2'']
                 | _ \<Rightarrow> False)
         | _ \<Rightarrow> False)
    | _ \<Rightarrow> False)"
  by (simp add: store_defs key_defs example_defs import_defs export_defs Atoi_def Let_def)

text \<open>
  C3, amended: when the import of an issue (its notes and label events, in the order the
  iterator delivers them) reports the bug as created and reports no comment edition,
  every operation of the bug carries the remote id, and the export of the bug, for any
  exporter, returns without a remote write call.
\<close>

theorem import_then_export_no_write:
  assumes "importIssue env gi r issue notes events = Returns (r', b, out)"
    and "\<exists>x \<in> set out. is_bug_creation x"
    and "\<forall>x \<in> set out. \<not> is_comment_edition x"
  shows "all_tagged b \<and> (\<exists>s. exportBug xenv ge b = Returns s \<and> w_writes s = [])"
  using exportBug_all_tagged [OF importIssue_all_tagged [OF assms]]
    importIssue_all_tagged [OF assms] by simp

theorem import_then_export_no_write_witness:
  "(case importedBug of
      Returns (r, b, out) \<Rightarrow>
        out = [ImportIdentity (IdentityId 0), ImportBug (BugId 0), ImportComment (OpId 0 1),
               ImportIdentity (IdentityId 1), ImportStatusChange (OpId 0 2)]
        \<and> length (bug_ops b) = 4
        \<and> (\<exists>s. exportBug exExportEnv exExporter b = Returns s \<and> w_writes s = [])
    | _ \<Rightarrow> False)"
proof -
  have "\<exists>r b. importedBug
          = Returns (r, b, [ImportIdentity (IdentityId 0), ImportBug (BugId 0),
                            ImportComment (OpId 0 1), ImportIdentity (IdentityId 1),
                            ImportStatusChange (OpId 0 2)])
        \<and> length (bug_ops b) = 4"
    by (simp add: importedBug_def store_defs key_defs example_defs import_defs Let_def)
  then obtain r b where
    i: "importedBug
          = Returns (r, b, [ImportIdentity (IdentityId 0), ImportBug (BugId 0),
                            ImportComment (OpId 0 1), ImportIdentity (IdentityId 1),
                            ImportStatusChange (OpId 0 2)])"
    and n: "length (bug_ops b) = 4" by blast
  have h2: "\<exists>x \<in> set [ImportIdentity (IdentityId 0), ImportBug (BugId 0),
                        ImportComment (OpId 0 1), ImportIdentity (IdentityId 1),
                        ImportStatusChange (OpId 0 2)]. is_bug_creation x"
    by (simp add: is_bug_creation_def)
  have h3: "\<forall>x \<in> set [ImportIdentity (IdentityId 0), ImportBug (BugId 0),
                        ImportComment (OpId 0 1), ImportIdentity (IdentityId 1),
                        ImportStatusChange (OpId 0 2)]. \<not> is_comment_edition x"
    by (simp add: is_comment_edition_def)
  from import_then_export_no_write [OF i [unfolded importedBug_def] h2 h3,
      of exExportEnv exExporter]
  have e: "\<exists>s. exportBug exExportEnv exExporter b = Returns s \<and> w_writes s = []" by simp
  show ?thesis unfolding i using n e by simp
qed

end
